theory Spec2Isabelle
  imports Main "HOL-Library.AList" "HOL-Library.Sublist"
begin

section \<open>Strings and POSIX paths\<close>

text \<open>
  Paths and file contents are Python strings, modelled as \<open>string\<close>: a list of
  characters, one character of the model for one code point of the Python string, so
  that lengths and indices are Python's. The characters below 128 are the ASCII
  characters; a character from 128 on stands for a code point outside ASCII, and the
  code modelled here does nothing with such a character but compare it, copy it and
  lower-case it. The search locations of \<open>config/settings.py\<close> are POSIX paths, so
  \<open>os.sep\<close> is the forward slash.
\<close>

type_synonym path = string

definition os_sep :: char where
  "os_sep = CHR ''/''"

text \<open>Lower-casing of the ASCII letters; every other character is left as it is.\<close>

definition ascii_lower_char :: "char \<Rightarrow> char" where
  "ascii_lower_char c =
     (case map_of (zip ''ABCDEFGHIJKLMNOPQRSTUVWXYZ'' ''abcdefghijklmnopqrstuvwxyz'') c of
        Some d \<Rightarrow> d
      | None \<Rightarrow> c)"

definition ascii_lower :: "string \<Rightarrow> string" where
  "ascii_lower s = map ascii_lower_char s"

definition is_ascii :: "char \<Rightarrow> bool" where
  "is_ascii c = (\<not> digit7 c)"

definition startswith :: "string \<Rightarrow> string \<Rightarrow> bool" where
  "startswith s p = (take (length p) s = p)"

definition endswith :: "string \<Rightarrow> string \<Rightarrow> bool" where
  "endswith s x = (length x \<le> length s \<and> drop (length s - length x) s = x)"

text \<open>\<open>str.find\<close>: the lowest index at which \<open>sub\<close> starts in \<open>s\<close>, or \<open>-1\<close>.\<close>

fun find_from :: "string \<Rightarrow> string \<Rightarrow> nat \<Rightarrow> int" where
  "find_from sub [] i = (if sub = [] then int i else - 1)"
| "find_from sub (c # cs) i =
     (if startswith (c # cs) sub then int i else find_from sub cs (Suc i))"

definition str_find :: "string \<Rightarrow> string \<Rightarrow> int" where
  "str_find s sub = find_from sub s 0"

text \<open>\<open>s[i:]\<close> for an index \<open>i \<ge> 0\<close>: past the end it is the empty string.\<close>

definition slice_from :: "string \<Rightarrow> int \<Rightarrow> string" where
  "slice_from s i = drop (nat i) s"

definition str_replace_char :: "string \<Rightarrow> char \<Rightarrow> char \<Rightarrow> string" where
  "str_replace_char s a b = map (\<lambda>c. if c = a then b else c) s"

definition lstrip_sep :: "string \<Rightarrow> string" where
  "lstrip_sep s = dropWhile (\<lambda>c. c = CHR ''/'') s"

definition basename :: "path \<Rightarrow> string" where
  "basename p = rev (takeWhile (\<lambda>c. c \<noteq> os_sep) (rev p))"

definition path_join :: "path \<Rightarrow> path \<Rightarrow> path" where
  "path_join a b =
     (if startswith b [os_sep] then b
      else if a = [] \<or> endswith a [os_sep] then a @ b
      else a @ [os_sep] @ b)"

section \<open>Data model\<close>

text \<open>\<open>models/data_models.py\<close>: \<open>FileTarget\<close>.\<close>

record file_target =
  src :: string
  device :: string
  dest_rel :: string
  cached :: bool
  from_docker :: bool

section \<open>Global de-duplication (\<open>RulesCollector._deduplicate_targets\<close>)\<close>

fun dedup_loop :: "file_target list \<Rightarrow> string set \<Rightarrow> file_target list \<Rightarrow> file_target list" where
  "dedup_loop [] seen_source_paths unique_targets = unique_targets"
| "dedup_loop (target # targets) seen_source_paths unique_targets =
     (if src target \<notin> seen_source_paths
      then dedup_loop targets (insert (src target) seen_source_paths) (unique_targets @ [target])
      else dedup_loop targets seen_source_paths unique_targets)"

definition deduplicate_targets :: "file_target list \<Rightarrow> file_target list" where
  "deduplicate_targets targets = dedup_loop targets {} []"

section \<open>The world the collector runs in\<close>

text \<open>
  \<open>config/data_models.py\<close>: \<open>DeviceConfig\<close>. Its validation admits the two type strings
  \<open>"local"\<close> and \<open>"docker"\<close> only, so the type is a two-valued datatype.
\<close>

datatype device_type = Local | Docker

record device_config =
  name :: string
  type :: device_type
  relative_path :: "string list"
  file_type :: string
  container :: string
  container_path :: string

text \<open>
  An entry of the path cache is the dictionary \<open>{"path": ..., "dest_rel": ...}\<close>; the path
  cache is a dictionary from device names to lists of entries, kept as an association
  list in insertion order (assignment to a key is \<open>AList.update\<close>).
\<close>

record path_info =
  info_path :: string
  info_dest_rel :: string

type_synonym path_cache = "(string \<times> path_info list) list"

type_synonym hash_record = "path \<rightharpoonup> string"

text \<open>
  A persisted JSON file is missing, unreadable as JSON, or holds a value. The state of
  the machine is the content of the regular files, the set of directories and the two
  cache files of \<open>config/settings.py\<close> (\<open>HASH_RECORD_FILE\<close>, \<open>PATH_CACHE_FILE\<close>).
\<close>

datatype 'a json_file = Missing | Corrupt | Stored 'a

record world =
  files :: "path \<rightharpoonup> string"
  dirs :: "path \<Rightarrow> bool"
  hash_record_file :: "hash_record json_file"
  path_cache_file :: "path_cache json_file"

definition isfile :: "world \<Rightarrow> path \<Rightarrow> bool" where
  "isfile w p = (files w p \<noteq> None)"

definition isdir :: "world \<Rightarrow> path \<Rightarrow> bool" where
  "isdir w p = dirs w p"

definition exists :: "world \<Rightarrow> path \<Rightarrow> bool" where
  "exists w p = (isfile w p \<or> isdir w p)"

text \<open>\<open>models/data_models.py\<close>: \<open>DockerContainerInfo\<close>.\<close>

record container_info =
  container_id :: string
  is_running :: bool
  resolved_id :: string

text \<open>
  How a library call that writes can go wrong. \<open>shutil.copy2\<close> may fail before it writes
  anything or after it has written a prefix of the content; writing a JSON file may fail
  at \<open>open\<close> (the old file stays) or during the dump (the file is left truncated).
\<close>

datatype copy_fault = CopyOk | CopyFailsEarly | CopyFailsPartial nat

datatype write_fault = WriteOk | WriteOpenFails | WriteFailsMidway

text \<open>
  The ways \<open>DockerOperations.extract_directory_using_tar\<close> ends: the archive cannot be
  read, the wait for the process times out, the process exits non-zero, another
  exception is raised, or the tree is unpacked.
\<close>

datatype tar_outcome = TarReadError | TarTimeout | TarNonZeroExit | TarException | TarUnpacked

text \<open>
  Everything outside the repository is a parameter: the library calls whose results
  depend on the machine (globbing, walking, path normalisation, the digest), the faults
  of the calls that write, and the Docker command line. \<open>glob_recursive\<close> is \<open>None\<close>
  when \<open>glob.glob\<close> raises. \<open>os.walk\<close> yields \<open>(root, files)\<close> pairs and, with its default
  \<open>onerror\<close>, raises nothing; \<open>os.makedirs\<close> and \<open>shutil.rmtree\<close> are taken to succeed.
  \<open>docker_cp\<close> is the return code of \<open>run_docker_command\<close> (which turns an exception into
  \<open>-1\<close>) together with the state it leaves; \<open>get_container_info\<close> and
  \<open>path_exists_in_container\<close> stand for the answers of \<open>docker inspect\<close>, \<open>docker ps\<close> and
  \<open>docker exec test -e\<close>. \<open>unicode_lower\<close> is \<open>str.lower\<close> on the strings that hold a
  character outside ASCII: it need not keep the length of a string (\<open>U+0130\<close> becomes two
  code points). \<open>rename_directory\<close> is \<open>os.replace\<close> applied to a directory: \<open>None\<close> when
  it raises (nothing changes then), else the state it leaves.
\<close>

record sys =
  unicode_lower :: "string \<Rightarrow> string"
  abspath :: "path \<Rightarrow> path"
  relpath :: "path \<Rightarrow> path \<Rightarrow> path"
  expanduser_home :: path
  glob_recursive :: "world \<Rightarrow> path \<Rightarrow> path list option"
  walk :: "world \<Rightarrow> path \<Rightarrow> (path \<times> string list) list"
  iterdir_nonempty :: "world \<Rightarrow> path \<Rightarrow> bool"
  makedirs :: "path \<Rightarrow> world \<Rightarrow> world"
  rmtree :: "path \<Rightarrow> world \<Rightarrow> world"
  md5_hexdigest :: "string \<Rightarrow> string"
  read_fails :: "world \<Rightarrow> path \<Rightarrow> bool"
  copy2_fault :: "world \<Rightarrow> path \<Rightarrow> path \<Rightarrow> copy_fault"
  replace_fails :: "world \<Rightarrow> path \<Rightarrow> path \<Rightarrow> bool"
  remove_fails :: "world \<Rightarrow> path \<Rightarrow> bool"
  rename_directory :: "path \<Rightarrow> path \<Rightarrow> world \<Rightarrow> world option"
  json_write_fault :: "world \<Rightarrow> path \<Rightarrow> write_fault"
  get_container_info :: "world \<Rightarrow> string \<Rightarrow> container_info option"
  path_exists_in_container :: "world \<Rightarrow> string \<Rightarrow> path \<Rightarrow> bool"
  docker_cp :: "string \<Rightarrow> path \<Rightarrow> world \<Rightarrow> int \<times> world"
  docker_tar_stream :: "string \<Rightarrow> path \<Rightarrow> path \<Rightarrow> world \<Rightarrow> tar_outcome \<times> world"

text \<open>
  \<open>str.lower\<close>. On a string of ASCII characters it lower-cases the letters \<open>A\<close> to \<open>Z\<close>;
  on any other string it is the parameter, of which nothing is assumed.
\<close>

definition lower :: "sys \<Rightarrow> string \<Rightarrow> string" where
  "lower sys s = (if list_all is_ascii s then ascii_lower s else unicode_lower sys s)"

text \<open>
  The calls of the run that write outside the two cache files (creating and clearing
  directories, extracting from a container) leave the persisted hash record alone.
\<close>

definition keeps_hash_record :: "sys \<Rightarrow> bool" where
  "keeps_hash_record sys =
     ((\<forall>p w. hash_record_file (makedirs sys p w) = hash_record_file w)
      \<and> (\<forall>p w. hash_record_file (rmtree sys p w) = hash_record_file w)
      \<and> (\<forall>source dst w. hash_record_file (snd (docker_cp sys source dst w)) = hash_record_file w)
      \<and> (\<forall>ident source dst w.
            hash_record_file (snd (docker_tar_stream sys ident source dst w)) =
            hash_record_file w))"

section \<open>Settings (\<open>config/settings.py\<close>)\<close>

definition OUTPUT_DIR :: path where
  "OUTPUT_DIR = ''collected_rules''"

definition HASH_RECORD_FILE :: path where
  "HASH_RECORD_FILE = path_join OUTPUT_DIR ''file_hashes.json''"

definition PATH_CACHE_FILE :: path where
  "PATH_CACHE_FILE = path_join OUTPUT_DIR ''path_cache.json''"

definition DOCKER_TEMP_DIR :: path where
  "DOCKER_TEMP_DIR = path_join OUTPUT_DIR ''docker_temp''"

definition COMMON_PATHS :: "path list" where
  "COMMON_PATHS = [''/etc'', ''/opt'', ''/usr/local'', ''/usr/share'', ''/var/lib'', ''/var'']"

definition PROGRAM_PATHS :: "path list" where
  "PROGRAM_PATHS = [''/usr/share'', ''/usr/local/share'', ''/var/lib'', ''/opt'']"

text \<open>
  The three tiers, in the order of the source. The descriptions of the source are
  Chinese console labels; they are rendered in English here and play no role.
\<close>

definition SCAN_ORDER_PRIORITY :: "sys \<Rightarrow> (string \<times> path list) list" where
  "SCAN_ORDER_PRIORITY sys =
     [(''common paths'', COMMON_PATHS),
      (''user home directory'', [expanduser_home sys]),
      (''program install directories'', PROGRAM_PATHS)]"

section \<open>Filesystem prober (\<open>FileUtils.search_files\<close>)\<close>

fun add_matches :: "sys \<Rightarrow> world \<Rightarrow> path list \<Rightarrow> path list \<Rightarrow> path list" where
  "add_matches sys w [] found_paths = found_paths"
| "add_matches sys w (match # matches) found_paths =
     (if exists w match then
        (let abs_path = abspath sys match in
         if abs_path \<notin> set found_paths
         then add_matches sys w matches (found_paths @ [abs_path])
         else add_matches sys w matches found_paths)
      else add_matches sys w matches found_paths)"

fun search_patterns :: "sys \<Rightarrow> world \<Rightarrow> path \<Rightarrow> string list \<Rightarrow> path list \<Rightarrow> path list" where
  "search_patterns sys w base_path [] found_paths = found_paths"
| "search_patterns sys w base_path (pattern # patterns) found_paths =
     (let full_pattern = path_join base_path (lstrip_sep pattern);
          matches = (case glob_recursive sys w full_pattern of
                       Some ms \<Rightarrow> ms
                     | None \<Rightarrow> [])
      in search_patterns sys w base_path patterns (add_matches sys w matches found_paths))"

fun search_bases :: "sys \<Rightarrow> world \<Rightarrow> string list \<Rightarrow> path list \<Rightarrow> path list \<Rightarrow> path list" where
  "search_bases sys w patterns [] found_paths = found_paths"
| "search_bases sys w patterns (base_path # base_paths) found_paths =
     search_bases sys w patterns base_paths
       (search_patterns sys w base_path patterns found_paths)"

definition search_files :: "sys \<Rightarrow> world \<Rightarrow> string list \<Rightarrow> path list \<Rightarrow> path list" where
  "search_files sys w patterns base_paths = search_bases sys w patterns base_paths []"

text \<open>\<open>FileOperations.search_rule_files\<close> adds a console line to \<open>search_files\<close>.\<close>

definition search_rule_files :: "sys \<Rightarrow> world \<Rightarrow> string list \<Rightarrow> path list \<Rightarrow> path list" where
  "search_rule_files sys w patterns base_paths = search_files sys w patterns base_paths"

section \<open>Tiered search with escalation (\<open>RulesCollector._search_device_paths\<close>)\<close>

text \<open>
  The loop over the tiers. Besides the found items the model returns the list of the
  base-path lists it handed to \<open>search_rule_files\<close>, in the order of the calls: the
  probes the search performed.
\<close>

fun scan_tiers ::
  "sys \<Rightarrow> world \<Rightarrow> string list \<Rightarrow> (string \<times> path list) list \<Rightarrow> path list list
     \<Rightarrow> path list \<times> path list list" where
  "scan_tiers sys w patterns [] probed = ([], probed)"
| "scan_tiers sys w patterns ((description, search_paths) # tiers) probed =
     (let matched_items = search_rule_files sys w patterns search_paths in
      if matched_items \<noteq> []
      then ([] @ matched_items, probed @ [search_paths])
      else scan_tiers sys w patterns tiers (probed @ [search_paths]))"

definition search_device_paths :: "sys \<Rightarrow> world \<Rightarrow> device_config \<Rightarrow> path list \<times> path list list" where
  "search_device_paths sys w device_config =
     (let (found_items, probed) =
            scan_tiers sys w (relative_path device_config) (SCAN_ORDER_PRIORITY sys) []
      in if found_items = [] then
           (let matched_items = search_rule_files sys w (relative_path device_config) [''/'']
            in (if matched_items \<noteq> [] then found_items @ matched_items else found_items,
                probed @ [[''/'']]))
         else (found_items, probed))"

section \<open>From found items to targets (\<open>FileOperations.process_found_items\<close>)\<close>

text \<open>\<open>FileUtils.enumerate_directory_files\<close>.\<close>

definition extension_matches :: "sys \<Rightarrow> string \<Rightarrow> string \<Rightarrow> bool" where
  "extension_matches sys filename file_extension =
     endswith (lower sys filename) (''.'' @ lower sys file_extension)"

definition walk_entries :: "sys \<Rightarrow> path \<Rightarrow> string \<Rightarrow> path \<times> string list \<Rightarrow> (path \<times> path) list" where
  "walk_entries sys directory_path file_extension entry =
     (case entry of (root_dir, filenames) \<Rightarrow>
        (let relative_root = relpath sys root_dir directory_path in
         map (\<lambda>filename.
                (abspath sys (path_join root_dir filename),
                 if relative_root = ''.'' then filename else path_join relative_root filename))
           (filter (\<lambda>filename.
                      \<not> (file_extension \<noteq> [] \<and> \<not> extension_matches sys filename file_extension))
              filenames)))"

definition enumerate_directory_files :: "sys \<Rightarrow> world \<Rightarrow> path \<Rightarrow> string \<Rightarrow> (path \<times> path) list" where
  "enumerate_directory_files sys w directory_path file_extension =
     (if isfile w directory_path then
        (let filename = basename directory_path in
         if file_extension = [] \<or> extension_matches sys filename file_extension
         then [(abspath sys directory_path, filename)]
         else [])
      else concat (map (walk_entries sys directory_path file_extension)
                     (walk sys w directory_path)))"

text \<open>
  The two console messages of the exact-file branch that the specification refers to:
  the error for an empty relative path and the warning for a missing anchor.
\<close>

datatype log_event = ErrorNoRelativePath path | WarningAnchorMissing path

definition ANCHOR_PATTERN :: string where
  "ANCHOR_PATTERN = ''policy''"

text \<open>
  Mode 1 of the loop body: the \<open>(source, destination-relative)\<close> pairs of an exact file
  path. The anchor is searched in the lower-cased path, and the index found there cuts
  the path itself. Nothing in the \<open>try\<close> block raises, so its handler has no branch here.
\<close>

definition exact_file_entries :: "sys \<Rightarrow> path \<Rightarrow> (path \<times> path) list \<times> log_event list" where
  "exact_file_entries sys item =
     (let anchor_index = str_find (lower sys item) (lower sys ANCHOR_PATTERN) in
      if anchor_index \<noteq> - 1 then
        (let policy_end_index = anchor_index + int (length ANCHOR_PATTERN) + 1;
             destination_relative =
               str_replace_char (slice_from item policy_end_index) os_sep CHR ''/''
         in if destination_relative \<noteq> [] then ([(item, destination_relative)], [])
            else ([], [ErrorNoRelativePath item]))
      else ([(item, basename item)], [WarningAnchorMissing item]))"

text \<open>The inner loop: a pair whose source path is already a target is skipped.\<close>

fun add_targets :: "string \<Rightarrow> (path \<times> path) list \<Rightarrow> file_target list \<Rightarrow> file_target list" where
  "add_targets device_name [] targets = targets"
| "add_targets device_name ((source_path, destination_relative) # entries) targets =
     (if list_ex (\<lambda>target. src target = source_path) targets
      then add_targets device_name entries targets
      else add_targets device_name entries
             (targets @ [\<lparr>src = source_path, device = device_name,
                          dest_rel = destination_relative, cached = False,
                          from_docker = False\<rparr>]))"

fun process_items ::
  "sys \<Rightarrow> world \<Rightarrow> string \<Rightarrow> string \<Rightarrow> path list \<Rightarrow> file_target list \<times> log_event list
     \<Rightarrow> file_target list \<times> log_event list" where
  "process_items sys w device_name file_extension [] acc = acc"
| "process_items sys w device_name file_extension (item # found_items) (targets, log) =
     (if isfile w item \<and> endswith (lower sys item) (''.'' @ lower sys file_extension) then
        (let (entries, events) = exact_file_entries sys item in
         process_items sys w device_name file_extension found_items
           (add_targets device_name entries targets, log @ events))
      else if isdir w item then
        process_items sys w device_name file_extension found_items
          (add_targets device_name (enumerate_directory_files sys w item file_extension) targets,
           log)
      else process_items sys w device_name file_extension found_items (targets, log))"

definition process_found_items ::
  "sys \<Rightarrow> world \<Rightarrow> path list \<Rightarrow> string \<Rightarrow> string \<Rightarrow> file_target list \<times> log_event list" where
  "process_found_items sys w found_items device_name file_extension =
     process_items sys w device_name file_extension found_items ([], [])"

section \<open>Cache manager (\<open>core/cache_manager.py\<close>)\<close>

definition dirname :: "path \<Rightarrow> path" where
  "dirname p =
     (let head = rev (dropWhile (\<lambda>c. c \<noteq> os_sep) (rev p)) in
      if head \<noteq> [] \<and> \<not> list_all (\<lambda>c. c = os_sep) head
      then rev (dropWhile (\<lambda>c. c = os_sep) (rev head))
      else head)"

definition load_hash_record :: "world \<Rightarrow> hash_record" where
  "load_hash_record w =
     (case hash_record_file w of Stored r \<Rightarrow> r | Corrupt \<Rightarrow> Map.empty | Missing \<Rightarrow> Map.empty)"

definition load_path_cache :: "world \<Rightarrow> path_cache" where
  "load_path_cache w =
     (case path_cache_file w of Stored c \<Rightarrow> c | Corrupt \<Rightarrow> [] | Missing \<Rightarrow> [])"

text \<open>
  Both \<open>save\<close> functions catch every exception and print it: a failed save returns
  normally and leaves the file as the fault left it.
\<close>

definition save_hash_record :: "sys \<Rightarrow> hash_record \<Rightarrow> world \<Rightarrow> world" where
  "save_hash_record sys hash_record w =
     (let w1 = makedirs sys (dirname HASH_RECORD_FILE) w in
      case json_write_fault sys w1 HASH_RECORD_FILE of
        WriteOk \<Rightarrow> w1\<lparr>hash_record_file := Stored hash_record\<rparr>
      | WriteOpenFails \<Rightarrow> w1
      | WriteFailsMidway \<Rightarrow> w1\<lparr>hash_record_file := Corrupt\<rparr>)"

definition save_path_cache :: "sys \<Rightarrow> path_cache \<Rightarrow> world \<Rightarrow> world" where
  "save_path_cache sys path_cache w =
     (let w1 = makedirs sys (dirname PATH_CACHE_FILE) w in
      case json_write_fault sys w1 PATH_CACHE_FILE of
        WriteOk \<Rightarrow> w1\<lparr>path_cache_file := Stored path_cache\<rparr>
      | WriteOpenFails \<Rightarrow> w1
      | WriteFailsMidway \<Rightarrow> w1\<lparr>path_cache_file := Corrupt\<rparr>)"

text \<open>
  \<open>verify_cached_paths\<close>: the inner loop appends the entries whose path exists, which is
  a filter; the assignment \<open>valid_paths[device] = []\<close> followed by the appends is one
  update of the key.
\<close>

fun verify_loop :: "world \<Rightarrow> path_cache \<Rightarrow> path_cache \<Rightarrow> path_cache" where
  "verify_loop w [] valid_paths = valid_paths"
| "verify_loop w ((device_name, paths) # rest) valid_paths =
     verify_loop w rest
       (AList.update device_name (filter (\<lambda>path_info. exists w (info_path path_info)) paths)
          valid_paths)"

definition verify_cached_paths :: "world \<Rightarrow> path_cache \<Rightarrow> path_cache" where
  "verify_cached_paths w path_cache = verify_loop w path_cache []"

section \<open>Scan strategy (\<open>RulesCollector._decide_scan_strategy\<close>)\<close>

definition decide_scan_strategy :: "world \<Rightarrow> bool \<Rightarrow> path_cache \<Rightarrow> bool \<times> path_cache" where
  "decide_scan_strategy w force_rescan path_cache =
     (let use_cache = (\<not> force_rescan \<and> path_cache \<noteq> []) in
      if use_cache then
        (let verified_cache = verify_cached_paths w path_cache;
             has_valid_cache = list_ex (\<lambda>(device_name, paths). length paths > 0) verified_cache
         in if has_valid_cache then (True, verified_cache) else (False, []))
      else (False, []))"

section \<open>Local devices (\<open>RulesCollector._process_local_device\<close>)\<close>

text \<open>
  \<open>new_path_cache[device_name].append(entry)\<close>. The only caller has assigned the empty
  list to the key before, so the lookup never misses there.
\<close>

definition cache_append :: "path_cache \<Rightarrow> string \<Rightarrow> path_info \<Rightarrow> path_cache" where
  "cache_append new_path_cache device_name entry =
     AList.update device_name
       ((case map_of new_path_cache device_name of Some entries \<Rightarrow> entries | None \<Rightarrow> [])
          @ [entry])
       new_path_cache"

fun process_cached_loop ::
  "world \<Rightarrow> string \<Rightarrow> path_info list \<Rightarrow> file_target list \<times> path_cache
     \<Rightarrow> file_target list \<times> path_cache" where
  "process_cached_loop w device_name [] acc = acc"
| "process_cached_loop w device_name (path_info # cached_paths) (cached_targets, new_path_cache) =
     (let source_path = info_path path_info;
          destination_relative = info_dest_rel path_info
      in if exists w source_path then
           process_cached_loop w device_name cached_paths
             (cached_targets @ [\<lparr>src = source_path, device = device_name,
                                  dest_rel = destination_relative, cached = True,
                                  from_docker = False\<rparr>],
              cache_append new_path_cache device_name
                \<lparr>info_path = source_path, info_dest_rel = destination_relative\<rparr>)
         else process_cached_loop w device_name cached_paths (cached_targets, new_path_cache))"

definition process_cached_paths ::
  "world \<Rightarrow> string \<Rightarrow> path_info list \<Rightarrow> path_cache \<Rightarrow> file_target list \<times> path_cache" where
  "process_cached_paths w device_name cached_paths new_path_cache =
     process_cached_loop w device_name cached_paths ([], new_path_cache)"

fun cache_targets :: "path_cache \<Rightarrow> string \<Rightarrow> file_target list \<Rightarrow> path_cache" where
  "cache_targets new_path_cache device_name [] = new_path_cache"
| "cache_targets new_path_cache device_name (target # new_targets) =
     cache_targets
       (cache_append new_path_cache device_name
          \<lparr>info_path = src target, info_dest_rel = dest_rel target\<rparr>)
       device_name new_targets"

text \<open>\<open>device_name in verified_cache and verified_cache[device_name]\<close>.\<close>

definition has_cached_entries :: "path_cache \<Rightarrow> string \<Rightarrow> bool" where
  "has_cached_entries verified_cache device_name =
     (case map_of verified_cache device_name of Some entries \<Rightarrow> entries \<noteq> [] | None \<Rightarrow> False)"

definition process_local_device ::
  "sys \<Rightarrow> world \<Rightarrow> string \<Rightarrow> device_config \<Rightarrow> bool \<Rightarrow> path_cache \<Rightarrow> path_cache
     \<Rightarrow> file_target list \<times> path_cache" where
  "process_local_device sys w device_name device_config use_cache verified_cache new_path_cache =
     (let (cached_targets, cache1) =
            (if use_cache \<and> has_cached_entries verified_cache device_name
             then process_cached_paths w device_name
                    (case map_of verified_cache device_name of
                       Some entries \<Rightarrow> entries | None \<Rightarrow> [])
                    new_path_cache
             else ([], new_path_cache));
          (targets, cache2) =
            (if \<not> use_cache \<or> \<not> has_cached_entries verified_cache device_name then
               (let found_items = fst (search_device_paths sys w device_config);
                    new_targets = fst (process_found_items sys w found_items device_name
                                         (file_type device_config))
                in ([] @ new_targets, cache_targets cache1 device_name new_targets))
             else ([], cache1))
      in (cached_targets @ targets, cache2))"

section \<open>Hashing and change classification (\<open>FileOperations.calculate_file_hashes\<close>)\<close>

text \<open>
  \<open>FileUtils.calculate_file_hash\<close>: the digest of the content, or \<open>None\<close> when opening
  or reading the file raises.
\<close>

definition calculate_file_hash :: "sys \<Rightarrow> world \<Rightarrow> path \<Rightarrow> string option" where
  "calculate_file_hash sys w file_path =
     (case files w file_path of
        None \<Rightarrow> None
      | Some content \<Rightarrow>
          if read_fails sys w file_path then None else Some (md5_hexdigest sys content))"

text \<open>The test \<open>if file_hash:\<close> is false for \<open>None\<close> and for the empty string.\<close>

fun hash_loop ::
  "sys \<Rightarrow> world \<Rightarrow> hash_record \<Rightarrow> file_target list \<Rightarrow> hash_record \<times> file_target list \<times> nat
     \<Rightarrow> hash_record \<times> file_target list \<times> nat" where
  "hash_loop sys w old_hash_record [] acc = acc"
| "hash_loop sys w old_hash_record (target # targets)
     (new_hash_record, changed_files, unchanged_count) =
     (let source_path = src target in
      case calculate_file_hash sys w source_path of
        None \<Rightarrow>
          hash_loop sys w old_hash_record targets
            (new_hash_record, changed_files, unchanged_count)
      | Some file_hash \<Rightarrow>
          if file_hash = [] then
            hash_loop sys w old_hash_record targets
              (new_hash_record, changed_files, unchanged_count)
          else if old_hash_record source_path = Some file_hash then
            hash_loop sys w old_hash_record targets
              (new_hash_record(source_path \<mapsto> file_hash), changed_files, unchanged_count + 1)
          else
            hash_loop sys w old_hash_record targets
              (new_hash_record(source_path \<mapsto> file_hash), changed_files @ [target],
               unchanged_count))"

definition calculate_file_hashes ::
  "sys \<Rightarrow> world \<Rightarrow> file_target list \<Rightarrow> hash_record \<Rightarrow> hash_record \<times> file_target list \<times> nat" where
  "calculate_file_hashes sys w targets old_hash_record =
     hash_loop sys w old_hash_record targets (Map.empty, [], 0)"

section \<open>Crash-safe copy (\<open>FileUtils.safe_copy\<close>, \<open>FileOperations.copy_changed_files\<close>)\<close>

text \<open>
  The three library calls of \<open>safe_copy\<close> on the file store; each returns whether it
  returned normally. \<open>shutil.copy2\<close> onto an existing directory copies into it, under the
  base name of the source. It raises when the source cannot be read, when source and
  target are the same file and when the target is a directory; otherwise it writes the
  target in place (all of the content, nothing, or a prefix of it). \<open>os.replace\<close> is the
  atomic rename: it moves the whole file or changes nothing, and it raises when the
  destination is a directory; applied to a directory it is the parameter
  \<open>rename_directory\<close>. \<open>os.remove\<close> deletes a regular file and raises on anything else.
  Two different path strings are two different files.
\<close>

definition shutil_copy2 :: "sys \<Rightarrow> path \<Rightarrow> path \<Rightarrow> world \<Rightarrow> bool \<times> world" where
  "shutil_copy2 sys source dst w =
     (let target = (if isdir w dst then path_join dst (basename source) else dst) in
      case files w source of
        None \<Rightarrow> (False, w)
      | Some content \<Rightarrow>
          if source = target \<or> isdir w target then (False, w)
          else
            (case copy2_fault sys w source target of
               CopyOk \<Rightarrow> (True, w\<lparr>files := (files w)(target \<mapsto> content)\<rparr>)
             | CopyFailsEarly \<Rightarrow> (False, w)
             | CopyFailsPartial n \<Rightarrow>
                 (False, w\<lparr>files := (files w)(target \<mapsto> take n content)\<rparr>)))"

definition os_replace :: "sys \<Rightarrow> path \<Rightarrow> path \<Rightarrow> world \<Rightarrow> bool \<times> world" where
  "os_replace sys source dst w =
     (if isdir w source then
        (case rename_directory sys source dst w of
           None \<Rightarrow> (False, w)
         | Some w1 \<Rightarrow> (True, w1))
      else
        (case files w source of
           None \<Rightarrow> (False, w)
         | Some content \<Rightarrow>
             if replace_fails sys w source dst \<or> isdir w dst then (False, w)
             else if source = dst then (True, w)
             else (True, w\<lparr>files := (files w)(dst \<mapsto> content, source := None)\<rparr>)))"

definition os_remove :: "sys \<Rightarrow> path \<Rightarrow> world \<Rightarrow> bool \<times> world" where
  "os_remove sys p w =
     (if isdir w p \<or> files w p = None \<or> remove_fails sys w p then (False, w)
      else (True, w\<lparr>files := (files w)(p := None)\<rparr>))"

text \<open>The \<open>except\<close> handler of \<open>safe_copy\<close>: a failing removal is swallowed.\<close>

definition safe_copy_cleanup :: "sys \<Rightarrow> path \<Rightarrow> world \<Rightarrow> bool \<times> world" where
  "safe_copy_cleanup sys temp_path w =
     (if exists w temp_path then (False, snd (os_remove sys temp_path w)) else (False, w))"

definition safe_copy :: "sys \<Rightarrow> path \<Rightarrow> path \<Rightarrow> world \<Rightarrow> bool \<times> world" where
  "safe_copy sys source destination w =
     (let temp_path = destination @ ''.tmp'';
          (copied_ok, w1) = shutil_copy2 sys source temp_path w
      in if copied_ok then
           (let (replaced_ok, w2) = os_replace sys temp_path destination w1 in
            if replaced_ok then (True, w2) else safe_copy_cleanup sys temp_path w2)
         else safe_copy_cleanup sys temp_path w1)"

definition destination_of :: "file_target \<Rightarrow> path" where
  "destination_of target = path_join (path_join OUTPUT_DIR (device target)) (dest_rel target)"

text \<open>
  The loop over the changed files. Besides the copied destinations the model returns
  the \<open>(source, destination)\<close> pairs on which it called \<open>safe_copy\<close>, in the order of
  the calls.
\<close>

fun copy_loop ::
  "sys \<Rightarrow> file_target list \<Rightarrow> path list \<times> (path \<times> path) list \<Rightarrow> world
     \<Rightarrow> path list \<times> (path \<times> path) list \<times> world" where
  "copy_loop sys [] (copied_files, attempted) w = (copied_files, attempted, w)"
| "copy_loop sys (target # changed_files) (copied_files, attempted) w =
     (let destination_path = destination_of target;
          w1 = makedirs sys (dirname destination_path) w;
          (ok, w2) = safe_copy sys (src target) destination_path w1
      in copy_loop sys changed_files
           (if ok then copied_files @ [destination_path] else copied_files,
            attempted @ [(src target, destination_path)])
           w2)"

definition copy_changed_files ::
  "sys \<Rightarrow> file_target list \<Rightarrow> world \<Rightarrow> path list \<times> (path \<times> path) list \<times> world" where
  "copy_changed_files sys changed_files w =
     (if changed_files = [] then ([], [], w) else copy_loop sys changed_files ([], []) w)"

section \<open>Container extraction (\<open>core/docker_operations.py\<close>)\<close>

definition copy_directory_from_container ::
  "sys \<Rightarrow> string \<Rightarrow> path \<Rightarrow> path \<Rightarrow> world \<Rightarrow> bool \<times> world" where
  "copy_directory_from_container sys container_ref source_path destination_path w =
     (let w1 = makedirs sys destination_path w;
          (returncode, w2) =
            docker_cp sys (container_ref @ '':'' @ source_path @ ''/.'') destination_path w1
      in if returncode \<noteq> 0 then (False, w2)
         else if \<not> iterdir_nonempty sys w2 destination_path then (False, w2)
         else (True, w2))"

definition extract_directory_using_tar ::
  "sys \<Rightarrow> string \<Rightarrow> path \<Rightarrow> path \<Rightarrow> world \<Rightarrow> bool \<times> world" where
  "extract_directory_using_tar sys container_ref source_path destination_path w =
     (let w1 = makedirs sys destination_path w;
          (outcome, w2) = docker_tar_stream sys container_ref source_path destination_path w1
      in case outcome of
           TarReadError \<Rightarrow> (False, w2)
         | TarTimeout \<Rightarrow> (False, w2)
         | TarNonZeroExit \<Rightarrow> (False, w2)
         | TarException \<Rightarrow> (False, w2)
         | TarUnpacked \<Rightarrow> (True, w2))"

text \<open>
  The loop over the list of \<open>(method_name, method_function)\<close> pairs. The model returns,
  besides the success flag, the names of the methods it called, in the order of the calls.
\<close>

fun try_methods ::
  "(string \<times> (world \<Rightarrow> bool \<times> world)) list \<Rightarrow> string list \<Rightarrow> world
     \<Rightarrow> bool \<times> string list \<times> world" where
  "try_methods [] attempted w = (False, attempted, w)"
| "try_methods ((method_name, method_function) # methods) attempted w =
     (let (ok, w1) = method_function w in
      if ok then (True, attempted @ [method_name], w1)
      else try_methods methods (attempted @ [method_name]) w1)"

definition extraction_methods ::
  "sys \<Rightarrow> string \<Rightarrow> path \<Rightarrow> path \<Rightarrow> (string \<times> (world \<Rightarrow> bool \<times> world)) list" where
  "extraction_methods sys container_ref source_path temp_destination =
     [(''docker cp'', copy_directory_from_container sys container_ref source_path temp_destination),
      (''tar stream'', extract_directory_using_tar sys container_ref source_path temp_destination)]"

definition temp_destination_of :: "string \<Rightarrow> container_info \<Rightarrow> path" where
  "temp_destination_of device_name info =
     path_join (path_join DOCKER_TEMP_DIR device_name) (take 12 (resolved_id info))"

definition collected_entries ::
  "sys \<Rightarrow> path \<Rightarrow> string \<Rightarrow> string \<Rightarrow> path \<times> string list \<Rightarrow> file_target list" where
  "collected_entries sys temp_destination device_name file_extension entry =
     (case entry of (root_dir, filenames) \<Rightarrow>
        map (\<lambda>filename.
               (let source_file_path = path_join root_dir filename in
                \<lparr>src = source_file_path, device = device_name,
                 dest_rel = relpath sys source_file_path temp_destination,
                 cached = False, from_docker = True\<rparr>))
          (filter (\<lambda>filename.
                     \<not> (file_extension \<noteq> [] \<and> \<not> extension_matches sys filename file_extension))
             filenames))"

definition collect_from_docker_container ::
  "sys \<Rightarrow> string \<Rightarrow> path \<Rightarrow> string \<Rightarrow> string \<Rightarrow> world
     \<Rightarrow> file_target list \<times> string list \<times> world" where
  "collect_from_docker_container sys container_identifier source_path device_name file_extension w =
     (case get_container_info sys w container_identifier of
        None \<Rightarrow> ([], [], w)
      | Some info \<Rightarrow>
          if \<not> is_running info then ([], [], w)
          else if \<not> path_exists_in_container sys w (resolved_id info) source_path then ([], [], w)
          else
            (let temp_destination = temp_destination_of device_name info;
                 w1 = (if exists w temp_destination then rmtree sys temp_destination w else w);
                 w2 = makedirs sys temp_destination w1;
                 (success, attempted, w3) =
                   try_methods
                     (extraction_methods sys (resolved_id info) source_path temp_destination)
                     [] w2
             in if \<not> success then ([], attempted, w3)
                else if \<not> iterdir_nonempty sys w3 temp_destination then ([], attempted, w3)
                else (concat (map (collected_entries sys temp_destination device_name file_extension)
                                (walk sys w3 temp_destination)),
                      attempted, w3)))"

section \<open>The scan over all devices (\<open>RulesCollector._scan_rule_files\<close>)\<close>

fun scan_devices ::
  "sys \<Rightarrow> bool \<Rightarrow> path_cache \<Rightarrow> (string \<times> device_config) list
     \<Rightarrow> file_target list \<times> path_cache \<times> world \<Rightarrow> file_target list \<times> path_cache \<times> world" where
  "scan_devices sys use_cache verified_cache [] acc = acc"
| "scan_devices sys use_cache verified_cache ((device_name, device_config) # devices)
     (all_targets, new_path_cache, w) =
     (let cache0 = AList.update device_name [] new_path_cache in
      if type device_config = Docker then
        (let (docker_files, attempted, w1) =
               collect_from_docker_container sys (container device_config)
                 (container_path device_config) device_name (file_type device_config) w
         in scan_devices sys use_cache verified_cache devices
              (all_targets @ docker_files, cache0, w1))
      else
        (let (device_targets, cache1) =
               process_local_device sys w device_name device_config use_cache verified_cache cache0
         in scan_devices sys use_cache verified_cache devices
              (all_targets @ device_targets, cache1, w)))"

definition scan_rule_files ::
  "sys \<Rightarrow> (string \<times> device_config) list \<Rightarrow> bool \<Rightarrow> path_cache \<Rightarrow> world
     \<Rightarrow> file_target list \<times> world" where
  "scan_rule_files sys devices use_cache verified_cache w =
     (let (all_targets, new_path_cache, w1) =
            scan_devices sys use_cache verified_cache devices ([], [], w);
          w2 = save_path_cache sys new_path_cache w1
      in (deduplicate_targets all_targets, w2))"

section \<open>The run (\<open>RulesCollector.collect_rules\<close>)\<close>

text \<open>
  \<open>CollectionResult\<close> without its two clock fields (execution time and timestamp).
\<close>

record collection_result =
  total_files :: nat
  copied :: "path list"
  unchanged :: nat
  changed :: nat
  local_files :: nat
  docker_files :: nat
  cached_paths_used :: nat
  new_paths_found :: nat

definition empty_result :: collection_result where
  "empty_result =
     \<lparr>total_files = 0, copied = [], unchanged = 0, changed = 0, local_files = 0,
      docker_files = 0, cached_paths_used = 0, new_paths_found = 0\<rparr>"

definition generate_final_result ::
  "file_target list \<Rightarrow> nat \<Rightarrow> nat \<Rightarrow> path list \<Rightarrow> collection_result" where
  "generate_final_result targets unchanged_count changed_count copied_files =
     (let docker_files_count = length (filter from_docker targets);
          local_files_count = length targets - docker_files_count;
          cached_targets_count = length (filter cached targets);
          new_targets_count = length targets - cached_targets_count
      in \<lparr>total_files = length targets, copied = copied_files, unchanged = unchanged_count,
          changed = changed_count, local_files = local_files_count,
          docker_files = docker_files_count, cached_paths_used = cached_targets_count,
          new_paths_found = new_targets_count\<rparr>)"

text \<open>
  The devices are the table of \<open>DeviceConfigManager\<close>, a parameter here. The run
  returns its result and the state it leaves.
\<close>

definition collect_rules ::
  "sys \<Rightarrow> (string \<times> device_config) list \<Rightarrow> bool \<Rightarrow> world \<Rightarrow> collection_result \<times> world" where
  "collect_rules sys devices force_rescan w =
     (let w1 = makedirs sys DOCKER_TEMP_DIR (makedirs sys OUTPUT_DIR w);
          old_hash_record = load_hash_record w1;
          path_cache = load_path_cache w1;
          (use_cache, verified_cache) = decide_scan_strategy w1 force_rescan path_cache;
          (all_targets, w2) = scan_rule_files sys devices use_cache verified_cache w1
      in if all_targets = [] then (empty_result, w2)
         else
           (let (new_hash_record, changed_files, unchanged_count) =
                  calculate_file_hashes sys w2 all_targets old_hash_record;
                (copied_files, attempted, w3) = copy_changed_files sys changed_files w2;
                w4 = save_hash_record sys new_hash_record w3
            in (generate_final_result all_targets unchanged_count (length changed_files)
                  copied_files,
                w4)))"

section \<open>Example machines\<close>

text \<open>
  Concrete parameters on which the theorems below are instantiated: a machine on which
  nothing matches, nothing fails and no container answers, and an empty state.
\<close>

definition quiet_sys :: sys where
  "quiet_sys =
     \<lparr>unicode_lower = (\<lambda>s. s),
      abspath = (\<lambda>p. if 1 < length p \<and> last p = CHR ''/'' then butlast p else p),
      relpath = (\<lambda>p start. if p = start then ''.'' else drop (Suc (length start)) p),
      expanduser_home = ''/root'',
      glob_recursive = (\<lambda>w pattern. Some []),
      walk = (\<lambda>w p. []),
      iterdir_nonempty = (\<lambda>w p. False),
      makedirs = (\<lambda>p w. w),
      rmtree = (\<lambda>p w. w),
      md5_hexdigest = (\<lambda>content. ''md5:'' @ content),
      read_fails = (\<lambda>w p. False),
      copy2_fault = (\<lambda>w source dst. CopyOk),
      replace_fails = (\<lambda>w source dst. False),
      remove_fails = (\<lambda>w p. False),
      rename_directory = (\<lambda>source dst w. None),
      json_write_fault = (\<lambda>w p. WriteOk),
      get_container_info = (\<lambda>w ident. None),
      path_exists_in_container = (\<lambda>w ident p. False),
      docker_cp = (\<lambda>source dst w. (1, w)),
      docker_tar_stream = (\<lambda>ident source dst w. (TarException, w))\<rparr>"

definition empty_world :: world where
  "empty_world =
     \<lparr>files = Map.empty, dirs = (\<lambda>p. False), hash_record_file = Missing,
      path_cache_file = Missing\<rparr>"

text \<open>
  A machine with a Suricata rules directory both under \<open>/opt\<close> (first tier) and under the
  home directory (second tier).
\<close>

definition two_tier_sys :: sys where
  "two_tier_sys =
     quiet_sys\<lparr>glob_recursive := (\<lambda>w pattern.
        if pattern = ''/opt/**/suricata/rules/'' then Some [''/opt/suricata/rules/'']
        else if pattern = ''/root/**/suricata/rules/'' then Some [''/root/suricata/rules/'']
        else Some [])\<rparr>"

definition two_tier_world :: world where
  "two_tier_world =
     empty_world\<lparr>dirs := (\<lambda>p. p \<in> {''/opt/suricata/rules/'', ''/root/suricata/rules/''})\<rparr>"

definition suricata_config :: device_config where
  "suricata_config =
     \<lparr>name = ''suricata'', type = Local, relative_path = [''**/suricata/rules/''],
      file_type = ''rules'', container = [], container_path = []\<rparr>"

text \<open>
  Five rule files are targets: one unchanged, one changed, one unreadable, one new and
  one that does not exist.
\<close>

definition hash_world :: world where
  "hash_world =
     empty_world\<lparr>files := [''/etc/a.rules'' \<mapsto> ''alert a'', ''/etc/b.rules'' \<mapsto> ''alert b'',
                            ''/etc/c.rules'' \<mapsto> ''alert c'', ''/etc/d.rules'' \<mapsto> ''alert d'']\<rparr>"

definition hash_sys :: sys where
  "hash_sys = quiet_sys\<lparr>read_fails := (\<lambda>w p. p = ''/etc/c.rules'')\<rparr>"

definition target_of :: "path \<Rightarrow> file_target" where
  "target_of p =
     \<lparr>src = p, device = ''suricata'', dest_rel = basename p, cached = False, from_docker = False\<rparr>"

text \<open>
  A loaded path cache with two devices; only the first entry of the first device is
  still on disk.
\<close>

definition cache_world :: world where
  "cache_world = empty_world\<lparr>dirs := (\<lambda>p. p = ''/etc/suricata/rules'')\<rparr>"

definition example_cache :: path_cache where
  "example_cache =
     [(''suricata'',
       [\<lparr>info_path = ''/etc/suricata/rules'', info_dest_rel = ''rules''\<rparr>,
        \<lparr>info_path = ''/etc/suricata/old.rules'', info_dest_rel = ''old.rules''\<rparr>]),
      (''snort'',
       [\<lparr>info_path = ''/etc/snort/gone.rules'', info_dest_rel = ''gone.rules''\<rparr>])]"

text \<open>
  Zeek scripts found as exact file paths: the path of the specification's example, the
  same path with a capitalised \<open>Policy\<close> directory, a site script outside the policy
  tree, and a file whose extension is the anchor itself.
\<close>

definition zeek_file :: path where
  "zeek_file = ''/opt/zeek/share/zeek/policy/protocols/ssh/detect-bruteforcing.zeek''"

definition zeek_file_capital :: path where
  "zeek_file_capital = ''/opt/zeek/share/zeek/Policy/protocols/ssh/detect-bruteforcing.zeek''"

definition policy_file :: path where
  "policy_file = ''/srv/rules/base.policy''"

definition zeek_world :: world where
  "zeek_world =
     empty_world\<lparr>files := [zeek_file \<mapsto> ''event ssh'',
                            ''/opt/zeek/site/local.zeek'' \<mapsto> ''@load'',
                            zeek_file_capital \<mapsto> ''event ssh'',
                            policy_file \<mapsto> ''allow'']\<rparr>"

text \<open>
  A path with a capital dotted I (\<open>U+0130\<close>), on a machine whose \<open>str.lower\<close> turns it, as
  Python's does, into an \<open>i\<close> followed by a combining dot (\<open>U+0307\<close>); two characters
  outside ASCII stand for the two code points.
\<close>

definition dotted_capital :: char where
  "dotted_capital = CHR 0xDD"

definition combining_dot :: char where
  "combining_dot = CHR 0xDE"

definition dotted_sys :: sys where
  "dotted_sys =
     quiet_sys\<lparr>unicode_lower := (\<lambda>s.
        concat (map (\<lambda>c. if c = dotted_capital then [CHR ''i'', combining_dot]
                          else [ascii_lower_char c]) s))\<rparr>"

definition dotted_file :: path where
  "dotted_file = [os_sep, dotted_capital] @ ''/policy/a.zeek''"

definition dotted_world :: world where
  "dotted_world = empty_world\<lparr>files := [dotted_file \<mapsto> ''event a'']\<rparr>"

text \<open>
  A container-hosted appliance on a machine where both extraction methods fail, and on
  a machine where the direct copy fails and the archive stream unpacks one rule file.
\<close>

definition waf_info :: container_info where
  "waf_info = \<lparr>container_id = ''waf'', is_running = True, resolved_id = ''86e4e41a871c0f3d''\<rparr>"

definition waf_config :: device_config where
  "waf_config =
     \<lparr>name = ''waf'', type = Docker, relative_path = [], file_type = ''json'',
      container = ''waf'', container_path = ''/etc/nginx/waf/rule''\<rparr>"

definition waf_temp :: path where
  "waf_temp = ''collected_rules/docker_temp/waf/86e4e41a871c''"

definition docker_fail_sys :: sys where
  "docker_fail_sys =
     quiet_sys\<lparr>get_container_info := (\<lambda>w ident. if ident = ''waf'' then Some waf_info else None),
               path_exists_in_container := (\<lambda>w ident p. True)\<rparr>"

definition docker_tar_sys :: sys where
  "docker_tar_sys =
     docker_fail_sys\<lparr>
       docker_tar_stream := (\<lambda>ident source dst w.
          (TarUnpacked, w\<lparr>files := (files w)(dst @ ''/rule.json'' \<mapsto> ''{}'')\<rparr>)),
       iterdir_nonempty := (\<lambda>w p. files w (p @ ''/rule.json'') \<noteq> None),
       walk := (\<lambda>w p. if files w (p @ ''/rule.json'') \<noteq> None then [(p, [''rule.json''])] else [])\<rparr>"

text \<open>
  A rule file to copy over an older copy; a machine on which the copy breaks off after
  three bytes, and one on which, in addition, files cannot be removed. Last, a machine
  on which a directory stands at the temporary path and \<open>os.replace\<close> moves a directory
  with the files under it.
\<close>

definition copy_world :: world where
  "copy_world =
     empty_world\<lparr>files := [''/etc/a.rules'' \<mapsto> ''alert a'',
                            ''collected_rules/suricata/a.rules'' \<mapsto> ''old'']\<rparr>"

definition partial_copy_sys :: sys where
  "partial_copy_sys = quiet_sys\<lparr>copy2_fault := (\<lambda>w source dst. CopyFailsPartial 3)\<rparr>"

definition stuck_temp_sys :: sys where
  "stuck_temp_sys = partial_copy_sys\<lparr>remove_fails := (\<lambda>w p. True)\<rparr>"

definition temp_dir_world :: world where
  "temp_dir_world =
     empty_world\<lparr>files := [''/etc/a.rules'' \<mapsto> ''alert a''],
                 dirs := (\<lambda>p. p = ''collected_rules/suricata/a.rules.tmp'')\<rparr>"

definition temp_dir_sys :: sys where
  "temp_dir_sys =
     quiet_sys\<lparr>rename_directory := (\<lambda>source dst w.
        Some (w\<lparr>dirs := (\<lambda>p. p \<noteq> source \<and> (p = dst \<or> dirs w p)),
                files := (\<lambda>p.
                   if prefix (dst @ [os_sep]) p then files w (source @ drop (length dst) p)
                   else if prefix (source @ [os_sep]) p then None
                   else files w p)\<rparr>))\<rparr>"

text \<open>
  A persisted hash record with a path that is no longer found, a machine on which
  nothing is found, and a machine on which one Suricata rule file is found.
\<close>

definition old_record :: hash_record where
  "old_record =
     [''/etc/old/gone.rules'' \<mapsto> ''md5:gone'', ''/opt/suricata/rules/a.rules'' \<mapsto> ''md5:alert a'']"

definition stale_world :: world where
  "stale_world = empty_world\<lparr>hash_record_file := Stored old_record\<rparr>"

definition run_sys :: sys where
  "run_sys =
     two_tier_sys\<lparr>walk := (\<lambda>w p. if p = ''/opt/suricata/rules'' then [(p, [''a.rules''])] else [])\<rparr>"

definition run_world :: world where
  "run_world =
     \<lparr>files = [''/opt/suricata/rules/a.rules'' \<mapsto> ''alert a''],
      dirs = (\<lambda>p. p = ''/opt/suricata/rules/'' \<or> p = ''/opt/suricata/rules''),
      hash_record_file = Stored old_record,
      path_cache_file = Missing\<rparr>"

definition rule_target :: file_target where
  "rule_target =
     \<lparr>src = ''/opt/suricata/rules/a.rules'', device = ''suricata'', dest_rel = ''a.rules'',
      cached = False, from_docker = False\<rparr>"

section \<open>Properties of the de-duplication\<close>








section \<open>Properties of the tiered search\<close>

lemma scan_tiers_eq:
  "scan_tiers sys w patterns tiers probed =
     (let bases = map snd tiers;
          k = length (takeWhile (\<lambda>b. search_rule_files sys w patterns b = []) bases)
      in if k < length bases
         then (search_rule_files sys w patterns (bases ! k), probed @ take (Suc k) bases)
         else ([], probed @ bases))"
proof (induction tiers arbitrary: probed)
  case Nil
  show ?case by simp
next
  case (Cons tier tiers)
  obtain description search_paths where tier: "tier = (description, search_paths)"
    by (cases tier)
  show ?case
  proof (cases "search_rule_files sys w patterns search_paths = []")
    case True
    then show ?thesis
      using Cons.IH [of "probed @ [search_paths]"] by (simp add: tier Let_def)
  next
    case False
    then show ?thesis by (simp add: tier Let_def)
  qed
qed

text \<open>
  Claim C1. A fresh search of a local appliance probes the tiers in the configured order
  (common paths, home directory, program directories). With \<open>k\<close> the number of leading
  tiers whose probe is empty: if a tier \<open>k\<close> exists, the probes performed are exactly the
  tiers \<open>0..k\<close> in order, and the found items are the matches of tier \<open>k\<close> alone (the
  first tier with a match; no later tier is probed and nothing is merged); if every
  tier is empty, exactly one more probe, of \<open>["/"]\<close>, follows the three tiers and the
  found items are its result, empty or not.
\<close>

theorem search_device_paths_first_match:
  "(let probe = search_rule_files sys w (relative_path device_config);
        tiers = map snd (SCAN_ORDER_PRIORITY sys);
        k = length (takeWhile (\<lambda>bases. probe bases = []) tiers)
    in tiers = [COMMON_PATHS, [expanduser_home sys], PROGRAM_PATHS]
       \<and> (\<forall>j < k. probe (tiers ! j) = [])
       \<and> (k < length tiers \<longrightarrow> probe (tiers ! k) \<noteq> [])
       \<and> search_device_paths sys w device_config =
           (if k < length tiers then (probe (tiers ! k), take (Suc k) tiers)
            else (probe [''/''], tiers @ [[''/'']])))"
proof -
  define probe where "probe = search_rule_files sys w (relative_path device_config)"
  define tiers where "tiers = map snd (SCAN_ORDER_PRIORITY sys)"
  define k where "k = length (takeWhile (\<lambda>bases. probe bases = []) tiers)"
  have order: "tiers = [COMMON_PATHS, [expanduser_home sys], PROGRAM_PATHS]"
    by (simp add: tiers_def SCAN_ORDER_PRIORITY_def)
  have before: "\<forall>j < k. probe (tiers ! j) = []"
  proof (intro allI impI)
    fix j assume "j < k"
    then show "probe (tiers ! j) = []"
      unfolding k_def using takeWhile_nth
      by (metis (mono_tags, lifting) nth_mem set_takeWhileD)
  qed
  have at: "k < length tiers \<longrightarrow> probe (tiers ! k) \<noteq> []"
    unfolding k_def using nth_length_takeWhile by blast
  have scan: "scan_tiers sys w (relative_path device_config) (SCAN_ORDER_PRIORITY sys) [] =
      (if k < length tiers then (probe (tiers ! k), take (Suc k) tiers) else ([], tiers))"
    unfolding scan_tiers_eq [of sys w "relative_path device_config" "SCAN_ORDER_PRIORITY sys" "[]"]
    by (simp add: Let_def probe_def tiers_def k_def)
  have res: "search_device_paths sys w device_config =
      (if k < length tiers then (probe (tiers ! k), take (Suc k) tiers)
       else (probe [''/''], tiers @ [[''/'']]))"
    using at unfolding search_device_paths_def scan
    by (auto simp add: probe_def [symmetric] tiers_def [symmetric] Let_def)
  show ?thesis
    unfolding Let_def probe_def [symmetric] tiers_def [symmetric] k_def [symmetric]
    using order before at res by blast
qed

lemma two_tier_probe:
  "search_rule_files two_tier_sys two_tier_world [''**/suricata/rules/''] COMMON_PATHS
     = [''/opt/suricata/rules'']"
  by (simp add: two_tier_sys_def two_tier_world_def quiet_sys_def empty_world_def
      COMMON_PATHS_def search_rule_files_def search_files_def path_join_def lstrip_sep_def
      startswith_def endswith_def os_sep_def exists_def isfile_def isdir_def)

lemma quiet_probe:
  "search_rule_files quiet_sys w patterns bases = []"
proof -
  have p: "search_patterns quiet_sys w b ps [] = []" for b ps
    by (induction ps) (simp_all add: quiet_sys_def)
  have "search_bases quiet_sys w patterns bs [] = []" for bs
    by (induction bs) (simp_all add: p)
  then show ?thesis by (simp add: search_rule_files_def search_files_def)
qed

theorem search_device_paths_first_match_witness:
  "search_device_paths two_tier_sys two_tier_world suricata_config
     = ([''/opt/suricata/rules''], [COMMON_PATHS])
   \<and> search_device_paths quiet_sys empty_world suricata_config
     = ([], [COMMON_PATHS, [''/root''], PROGRAM_PATHS, [''/'']])"
proof -
  have first: "search_device_paths two_tier_sys two_tier_world suricata_config
     = ([''/opt/suricata/rules''], [COMMON_PATHS])"
    using search_device_paths_first_match [of two_tier_sys two_tier_world suricata_config]
      two_tier_probe
    by (simp add: Let_def suricata_config_def SCAN_ORDER_PRIORITY_def)
  have none: "search_device_paths quiet_sys empty_world suricata_config
     = ([], [COMMON_PATHS, [''/root''], PROGRAM_PATHS, [''/'']])"
    using search_device_paths_first_match [of quiet_sys empty_world suricata_config]
    by (simp add: Let_def quiet_probe SCAN_ORDER_PRIORITY_def) (simp add: quiet_sys_def)
  from first none show ?thesis by simp
qed

section \<open>Properties of the hashing phase\<close>

lemma hash_loop_eq:
  assumes nonempty: "\<forall>content. md5_hexdigest sys content \<noteq> []"
  shows "hash_loop sys w old targets (new, changed_files, n) =
     ((\<lambda>p. if p \<in> src ` set targets \<and> calculate_file_hash sys w p \<noteq> None
            then calculate_file_hash sys w p else new p),
      changed_files @ filter (\<lambda>t. case calculate_file_hash sys w (src t) of
                          None \<Rightarrow> False
                        | Some h \<Rightarrow> src t \<notin> dom old \<or> old (src t) \<noteq> Some h) targets,
      n + length (filter (\<lambda>t. case calculate_file_hash sys w (src t) of
                          None \<Rightarrow> False
                        | Some h \<Rightarrow> old (src t) = Some h) targets))"
proof (induction targets arbitrary: new changed_files n)
  case Nil
  show ?case by simp
next
  case (Cons t targets)
  show ?case
  proof (cases "calculate_file_hash sys w (src t)")
    case None
    have step: "hash_loop sys w old (t # targets) (new, changed_files, n) =
        hash_loop sys w old targets (new, changed_files, n)"
      using None by simp
    show ?thesis
      unfolding step Cons.IH using None by (simp add: fun_eq_iff)
  next
    case (Some h)
    then have h: "h \<noteq> []"
      using nonempty by (auto simp: calculate_file_hash_def split: option.splits if_splits)
    show ?thesis
    proof (cases "old (src t) = Some h")
      case True
      have step: "hash_loop sys w old (t # targets) (new, changed_files, n) =
          hash_loop sys w old targets (new(src t \<mapsto> h), changed_files, n + 1)"
        using Some h True by simp
      show ?thesis
        unfolding step Cons.IH using Some True by (auto simp add: fun_eq_iff)
    next
      case False
      have step: "hash_loop sys w old (t # targets) (new, changed_files, n) =
          hash_loop sys w old targets (new(src t \<mapsto> h), changed_files @ [t], n)"
        using Some h False by simp
      show ?thesis
        unfolding step Cons.IH using Some False by (auto simp add: fun_eq_iff)
    qed
  qed
qed

text \<open>
  Claim C3. The hashing phase returns normally for every list of targets. With a digest
  function that never yields the empty string (an MD5 hex digest has 32 characters):
  the changed list is exactly the targets whose digest was computed and whose source
  path is absent from the previous record or recorded with another digest, in order;
  the unchanged count is the number of targets whose computed digest equals the
  recorded one; the new record maps the source path of every target to its computed
  digest and nothing else, so a target whose digest cannot be computed is in neither the
  new record nor the changed list.
\<close>

theorem calculate_file_hashes_classification:
  assumes "\<forall>content. md5_hexdigest sys content \<noteq> []"
  shows "calculate_file_hashes sys w targets old_hash_record =
     ((\<lambda>p. if p \<in> src ` set targets then calculate_file_hash sys w p else None),
      filter (\<lambda>t. case calculate_file_hash sys w (src t) of
                     None \<Rightarrow> False
                   | Some h \<Rightarrow> src t \<notin> dom old_hash_record \<or> old_hash_record (src t) \<noteq> Some h)
        targets,
      length (filter (\<lambda>t. case calculate_file_hash sys w (src t) of
                             None \<Rightarrow> False
                           | Some h \<Rightarrow> old_hash_record (src t) = Some h)
                targets))"
  unfolding calculate_file_hashes_def hash_loop_eq [OF assms]
  by (auto simp: fun_eq_iff)

theorem calculate_file_hashes_classification_witness:
  "(\<forall>content. md5_hexdigest hash_sys content \<noteq> [])
   \<and> fst (snd (calculate_file_hashes hash_sys hash_world
        [target_of ''/etc/a.rules'', target_of ''/etc/b.rules'', target_of ''/etc/c.rules'',
         target_of ''/etc/d.rules'', target_of ''/etc/e.rules'']
        [''/etc/a.rules'' \<mapsto> ''md5:alert a'', ''/etc/b.rules'' \<mapsto> ''md5:old b'',
         ''/etc/gone.rules'' \<mapsto> ''md5:gone'']))
     = [target_of ''/etc/b.rules'', target_of ''/etc/d.rules'']
   \<and> snd (snd (calculate_file_hashes hash_sys hash_world
        [target_of ''/etc/a.rules'', target_of ''/etc/b.rules'', target_of ''/etc/c.rules'',
         target_of ''/etc/d.rules'', target_of ''/etc/e.rules'']
        [''/etc/a.rules'' \<mapsto> ''md5:alert a'', ''/etc/b.rules'' \<mapsto> ''md5:old b'',
         ''/etc/gone.rules'' \<mapsto> ''md5:gone''])) = 1
   \<and> map (fst (calculate_file_hashes hash_sys hash_world
        [target_of ''/etc/a.rules'', target_of ''/etc/b.rules'', target_of ''/etc/c.rules'',
         target_of ''/etc/d.rules'', target_of ''/etc/e.rules'']
        [''/etc/a.rules'' \<mapsto> ''md5:alert a'', ''/etc/b.rules'' \<mapsto> ''md5:old b'',
         ''/etc/gone.rules'' \<mapsto> ''md5:gone'']))
       [''/etc/a.rules'', ''/etc/b.rules'', ''/etc/c.rules'', ''/etc/d.rules'',
        ''/etc/e.rules'', ''/etc/gone.rules'']
     = [Some ''md5:alert a'', Some ''md5:alert b'', None, Some ''md5:alert d'', None, None]"
proof -
  have ne: "\<forall>content. md5_hexdigest hash_sys content \<noteq> []"
    by (simp add: hash_sys_def quiet_sys_def)
  show ?thesis
    using ne calculate_file_hashes_classification [OF ne, of hash_world
        "[target_of ''/etc/a.rules'', target_of ''/etc/b.rules'', target_of ''/etc/c.rules'',
         target_of ''/etc/d.rules'', target_of ''/etc/e.rules'']"
        "[''/etc/a.rules'' \<mapsto> ''md5:alert a'', ''/etc/b.rules'' \<mapsto> ''md5:old b'',
         ''/etc/gone.rules'' \<mapsto> ''md5:gone'']"]
    by (simp add: calculate_file_hash_def hash_sys_def hash_world_def quiet_sys_def
        empty_world_def target_of_def)
qed

section \<open>Properties of the scan strategy\<close>

lemma update_fresh_key:
  "k \<notin> fst ` set al \<Longrightarrow> AList.update k v al = al @ [(k, v)]"
  by (induction al) auto

lemma verify_loop_distinct:
  "distinct (map fst path_cache) \<Longrightarrow> fst ` set valid_paths \<inter> fst ` set path_cache = {} \<Longrightarrow>
   verify_loop w path_cache valid_paths =
     valid_paths @ map (\<lambda>(device_name, paths).
        (device_name, filter (\<lambda>e. exists w (info_path e)) paths)) path_cache"
proof (induction path_cache arbitrary: valid_paths)
  case Nil
  show ?case by simp
next
  case (Cons entry path_cache)
  obtain device_name paths where entry: "entry = (device_name, paths)" by (cases entry)
  let ?kept = "filter (\<lambda>e. exists w (info_path e)) paths"
  have fresh: "device_name \<notin> fst ` set valid_paths" using Cons.prems(2) entry by auto
  have upd: "AList.update device_name ?kept valid_paths = valid_paths @ [(device_name, ?kept)]"
    using fresh by (rule update_fresh_key)
  have d: "distinct (map fst path_cache)" using Cons.prems(1) by simp
  have disj: "fst ` set (valid_paths @ [(device_name, ?kept)]) \<inter> fst ` set path_cache = {}"
    using Cons.prems entry by auto
  show ?case
    using Cons.IH [OF d disj] by (simp add: entry upd)
qed

lemma verify_cached_paths_distinct:
  "distinct (map fst path_cache) \<Longrightarrow>
   verify_cached_paths w path_cache =
     map (\<lambda>(device_name, paths).
        (device_name, filter (\<lambda>e. exists w (info_path e)) paths)) path_cache"
  unfolding verify_cached_paths_def using verify_loop_distinct [of path_cache "[]" w] by simp

lemma process_local_device_fresh:
  "process_local_device sys w device_name device_config False verified_cache new_path_cache =
     (let new_targets = fst (process_found_items sys w (fst (search_device_paths sys w device_config))
                               device_name (file_type device_config))
      in (new_targets, cache_targets new_path_cache device_name new_targets))"
  by (simp add: process_local_device_def Let_def)

text \<open>
  Claim C4. For a loaded cache (a dictionary: its keys are distinct) the decision is
  one flag for the whole run: the cache is used exactly when the run is not a forced
  rescan, the cache is not empty and some entry of some appliance still exists; the
  verified cache handed on is then the loaded cache with every vanished entry dropped.
  In every other case the flag is false and the cache handed on is empty, and with a
  false flag every local appliance is searched afresh whatever the cache holds.
\<close>

theorem decide_scan_strategy_global:
  assumes "distinct (map fst path_cache)"
  shows "decide_scan_strategy w force_rescan path_cache =
     (if \<not> force_rescan \<and> path_cache \<noteq> []
         \<and> (\<exists>(device_name, paths) \<in> set path_cache. \<exists>e \<in> set paths. exists w (info_path e))
      then (True, map (\<lambda>(device_name, paths).
                         (device_name, filter (\<lambda>e. exists w (info_path e)) paths)) path_cache)
      else (False, []))
   \<and> (\<forall>sys w' device_name device_config verified_cache new_path_cache.
        process_local_device sys w' device_name device_config False verified_cache new_path_cache =
          (let new_targets =
                 fst (process_found_items sys w' (fst (search_device_paths sys w' device_config))
                        device_name (file_type device_config))
           in (new_targets, cache_targets new_path_cache device_name new_targets)))"
proof -
  let ?valid = "\<lambda>e. exists w (info_path e)"
  have ex: "list_ex (\<lambda>(device_name, paths). length paths > 0)
              (map (\<lambda>(device_name, paths). (device_name, filter ?valid paths)) path_cache)
            = (\<exists>(device_name, paths) \<in> set path_cache. \<exists>e \<in> set paths. ?valid e)"
    by (auto simp: list_ex_iff filter_empty_conv split_beta)
  have "decide_scan_strategy w force_rescan path_cache =
     (if \<not> force_rescan \<and> path_cache \<noteq> []
         \<and> (\<exists>(device_name, paths) \<in> set path_cache. \<exists>e \<in> set paths. ?valid e)
      then (True, map (\<lambda>(device_name, paths). (device_name, filter ?valid paths)) path_cache)
      else (False, []))"
    unfolding decide_scan_strategy_def verify_cached_paths_distinct [OF assms] Let_def ex
    by simp
  then show ?thesis using process_local_device_fresh by blast
qed

theorem decide_scan_strategy_global_witness:
  "distinct (map fst example_cache)
   \<and> decide_scan_strategy cache_world False example_cache =
       (True, [(''suricata'', [\<lparr>info_path = ''/etc/suricata/rules'', info_dest_rel = ''rules''\<rparr>]),
               (''snort'', [])])
   \<and> decide_scan_strategy cache_world True example_cache = (False, [])
   \<and> decide_scan_strategy empty_world False example_cache = (False, [])
   \<and> decide_scan_strategy cache_world False [] = (False, [])"
proof -
  have d: "distinct (map fst example_cache)" by (simp add: example_cache_def)
  have e: "distinct (map fst ([] :: path_cache))" by simp
  show ?thesis
    using d decide_scan_strategy_global [OF d, of cache_world False]
      decide_scan_strategy_global [OF d, of cache_world True]
      decide_scan_strategy_global [OF d, of empty_world False]
      decide_scan_strategy_global [OF e, of cache_world False]
    by (simp add: example_cache_def cache_world_def empty_world_def exists_def isfile_def
        isdir_def)
qed

section \<open>Properties of the conversion of found items\<close>

lemma ascii_lower_length [simp]: "length (ascii_lower s) = length s"
  by (simp add: ascii_lower_def)

lemma ascii_lower_append: "ascii_lower (a @ b) = ascii_lower a @ ascii_lower b"
  by (simp add: ascii_lower_def)

lemma lower_ascii: "list_all is_ascii s \<Longrightarrow> lower sys s = ascii_lower s"
  by (simp add: lower_def)

lemma startswith_prefix: "startswith s p = prefix p s"
proof
  assume "startswith s p"
  then have "take (length p) s = p" by (simp add: startswith_def)
  then show "prefix p s" using take_is_prefix [of "length p" s] by simp
next
  assume "prefix p s"
  then obtain zs where "s = p @ zs" by (auto simp: prefix_def)
  then show "startswith s p" by (simp add: startswith_def)
qed

lemma find_from_absent:
  "\<not> sublist sub s \<Longrightarrow> find_from sub s i = - 1"
proof (induction s arbitrary: i)
  case Nil
  have "sub \<noteq> []"
  proof
    assume "sub = []"
    then have "sublist sub []" by simp
    then show False using Nil by simp
  qed
  then show ?case by simp
next
  case (Cons c cs)
  have both: "\<not> (prefix sub (c # cs) \<or> sublist sub cs)"
    using Cons.prems unfolding sublist_Cons_right .
  then have p: "\<not> startswith (c # cs) sub" unfolding startswith_prefix by simp
  have r: "\<not> sublist sub cs" using both by simp
  have "find_from sub (c # cs) i = find_from sub cs (Suc i)"
    using p by (simp only: find_from.simps if_False)
  then show ?case using Cons.IH [OF r, of "Suc i"] by simp
qed

lemma find_from_first:
  "sub \<noteq> [] \<Longrightarrow> \<not> sublist sub (pre @ butlast sub) \<Longrightarrow>
   find_from sub (pre @ sub @ post) i = int (i + length pre)"
proof (induction pre arbitrary: i)
  case Nil
  then show ?case by (cases sub) (simp_all add: startswith_def)
next
  case (Cons c pre)
  have no: "\<not> prefix sub (c # pre @ sub @ post)"
  proof
    assume p: "prefix sub (c # pre @ sub @ post)"
    have split: "c # pre @ sub @ post = ((c # pre) @ butlast sub) @ (last sub # post)"
      using Cons.prems(1) by simp
    have "length sub \<le> length ((c # pre) @ butlast sub)" by simp
    then have "prefix sub ((c # pre) @ butlast sub)"
      using p prefix_length_prefix [of sub "c # pre @ sub @ post" "(c # pre) @ butlast sub"]
      unfolding split by (simp add: prefixI del: append_assoc)
    then show False using Cons.prems(2) prefix_imp_sublist by blast
  qed
  have rest: "\<not> sublist sub (pre @ butlast sub)"
    using Cons.prems(2) sublist_Cons_right [of sub c "pre @ butlast sub"] by simp
  show ?case
    using no Cons.IH [OF Cons.prems(1) rest, of "Suc i"] by (simp add: startswith_prefix)
qed

lemma str_find_absent: "\<not> sublist sub s \<Longrightarrow> str_find s sub = - 1"
  by (simp add: str_find_def find_from_absent)

lemma str_find_first:
  "sub \<noteq> [] \<Longrightarrow> \<not> sublist sub (pre @ butlast sub) \<Longrightarrow>
   str_find (pre @ sub @ post) sub = int (length pre)"
  using find_from_first [of sub pre post 0] by (simp add: str_find_def)

lemma anchor_lower [simp]: "lower sys ANCHOR_PATTERN = ANCHOR_PATTERN"
  by (simp add: ANCHOR_PATTERN_def lower_def is_ascii_def ascii_lower_def ascii_lower_char_def)

lemma replace_sep [simp]: "str_replace_char s os_sep CHR ''/'' = s"
  by (simp add: str_replace_char_def os_sep_def map_idI)

text \<open>
  The exact-file computation when the lower-cased path holds the anchor, its first
  occurrence starting at index \<open>length lpre\<close>: the path itself is cut at that index plus
  the length of the anchor plus one.
\<close>

lemma exact_file_entries_found:
  assumes low: "lower sys item = lpre @ ANCHOR_PATTERN @ lpost"
      and first: "\<not> sublist ANCHOR_PATTERN (lpre @ butlast ANCHOR_PATTERN)"
  shows "exact_file_entries sys item =
     (if drop (length lpre + length ANCHOR_PATTERN + 1) item \<noteq> []
      then ([(item, drop (length lpre + length ANCHOR_PATTERN + 1) item)], [])
      else ([], [ErrorNoRelativePath item]))"
proof -
  have ne: "ANCHOR_PATTERN \<noteq> []" by (simp add: ANCHOR_PATTERN_def)
  have idx: "str_find (lower sys item) ANCHOR_PATTERN = int (length lpre)"
    unfolding low using str_find_first [OF ne first, of lpost] by simp
  have sl: "slice_from item (int (length lpre) + int (length ANCHOR_PATTERN) + 1) =
      drop (length lpre + length ANCHOR_PATTERN + 1) item"
    by (simp add: slice_from_def nat_add_distrib)
  show ?thesis
    unfolding exact_file_entries_def by (simp add: idx sl Let_def)
qed

lemma exact_file_entries_no_anchor:
  assumes "\<not> sublist ANCHOR_PATTERN (lower sys item)"
  shows "exact_file_entries sys item = ([(item, basename item)], [WarningAnchorMissing item])"
  unfolding exact_file_entries_def
  using str_find_absent [OF assms] by (simp add: Let_def)

text \<open>
  On a path of ASCII characters lower-casing keeps every position, so the anchor stands
  in the path itself where it stands in the lower-cased path.
\<close>

lemma ascii_anchor_position:
  assumes ascii: "list_all is_ascii item"
      and item: "item = pre @ tok @ tail"
      and tok: "ascii_lower tok = ANCHOR_PATTERN"
      and first: "\<not> sublist ANCHOR_PATTERN (ascii_lower (pre @ butlast tok))"
  shows "lower sys item = ascii_lower pre @ ANCHOR_PATTERN @ ascii_lower tail"
    and "\<not> sublist ANCHOR_PATTERN (ascii_lower pre @ butlast ANCHOR_PATTERN)"
    and "length tok = length ANCHOR_PATTERN"
proof -
  show "lower sys item = ascii_lower pre @ ANCHOR_PATTERN @ ascii_lower tail"
    using lower_ascii [OF ascii, of sys] item tok by (simp add: ascii_lower_append)
  have bl: "ascii_lower (butlast tok) = butlast ANCHOR_PATTERN"
    using tok by (simp add: ascii_lower_def map_butlast)
  show "\<not> sublist ANCHOR_PATTERN (ascii_lower pre @ butlast ANCHOR_PATTERN)"
    using first by (simp add: ascii_lower_append bl)
  show "length tok = length ANCHOR_PATTERN"
    using ascii_lower_length [of tok] tok by simp
qed

lemma add_single_target:
  "add_targets device_name [(source_path, destination_relative)] targets =
     (if list_ex (\<lambda>t. src t = source_path) targets then targets
      else targets @ [\<lparr>src = source_path, device = device_name, dest_rel = destination_relative,
                       cached = False, from_docker = False\<rparr>])"
  by simp

lemma process_items_exact:
  "isfile w item \<Longrightarrow> endswith (lower sys item) (''.'' @ lower sys file_extension) \<Longrightarrow>
   exact_file_entries sys item = (entries, events) \<Longrightarrow>
   process_items sys w device_name file_extension (item # found_items) (targets, log) =
   process_items sys w device_name file_extension found_items
     (add_targets device_name entries targets, log @ events)"
  by simp

lemma process_items_anchor_found:
  assumes isf: "isfile w item"
      and ext: "endswith (lower sys item) (''.'' @ lower sys file_extension)"
      and low: "lower sys item = lpre @ ANCHOR_PATTERN @ lpost"
      and first: "\<not> sublist ANCHOR_PATTERN (lpre @ butlast ANCHOR_PATTERN)"
      and item: "item = pre @ tok @ tail"
      and pre: "length pre = length lpre"
      and tok: "length tok = length ANCHOR_PATTERN"
  shows "process_items sys w device_name file_extension (item # found_items) (targets, log) =
     (if drop 1 tail \<noteq> [] then
        process_items sys w device_name file_extension found_items
          (if list_ex (\<lambda>t. src t = item) targets then targets
           else targets @ [\<lparr>src = item, device = device_name, dest_rel = drop 1 tail,
                            cached = False, from_docker = False\<rparr>],
           log)
      else
        process_items sys w device_name file_extension found_items
          (targets, log @ [ErrorNoRelativePath item]))"
proof -
  have cut: "drop (length lpre + length ANCHOR_PATTERN + 1) item = drop 1 tail"
    using item pre tok by simp
  show ?thesis
  proof (cases "drop 1 tail = []")
    case True
    have e: "exact_file_entries sys item = ([], [ErrorNoRelativePath item])"
      using exact_file_entries_found [OF low first] unfolding cut using True by simp
    show ?thesis
      using process_items_exact [OF isf ext e] True by simp
  next
    case False
    have e: "exact_file_entries sys item = ([(item, drop 1 tail)], [])"
      using exact_file_entries_found [OF low first] unfolding cut using False by simp
    show ?thesis
      using process_items_exact [OF isf ext e] False
      by (simp add: add_single_target del: add_targets.simps)
  qed
qed

lemma process_items_anchor_absent:
  assumes isf: "isfile w item"
      and ext: "endswith (lower sys item) (''.'' @ lower sys file_extension)"
      and absent: "\<not> sublist ANCHOR_PATTERN (lower sys item)"
  shows "process_items sys w device_name file_extension (item # found_items) (targets, log) =
        process_items sys w device_name file_extension found_items
          (if list_ex (\<lambda>t. src t = item) targets then targets
           else targets @ [\<lparr>src = item, device = device_name, dest_rel = basename item,
                            cached = False, from_docker = False\<rparr>],
           log @ [WarningAnchorMissing item])"
  using process_items_exact [OF isf ext exact_file_entries_no_anchor [OF absent]]
  by (simp add: add_single_target del: add_targets.simps)

text \<open>
  Claim C5, as the code has it. An exact-file match is a regular file whose lower-cased
  path ends in a dot and the lower-cased extension. The anchor is searched in the
  lower-cased path, so it is found in any letter case, and the index of its first
  occurrence there cuts the path itself. When lower-casing has kept that position (the
  path has as many characters before the anchor as its lower-cased form, as every ASCII
  path has) and a separator and a non-empty rest follow the anchor, the match becomes a
  target whose destination-relative path is that rest with every \<open>os.sep\<close> turned into a
  forward slash (unless its source path is a target already). When the anchor does not
  occur in the lower-cased path (for an ASCII path: in no letter case), the match
  becomes a target under its base filename and a warning is recorded.
\<close>

theorem exact_file_relative_path:
  assumes isf: "isfile w item"
      and ext: "endswith (lower sys item) (''.'' @ lower sys file_extension)"
  shows
    "(\<forall>lpre lpost pre tok rest.
        lower sys item = lpre @ ANCHOR_PATTERN @ lpost
        \<and> \<not> sublist ANCHOR_PATTERN (lpre @ butlast ANCHOR_PATTERN)
        \<and> item = pre @ tok @ [os_sep] @ rest
        \<and> length pre = length lpre \<and> length tok = length ANCHOR_PATTERN
        \<and> rest \<noteq> [] \<longrightarrow>
        process_items sys w device_name file_extension (item # found_items) (targets, log) =
        process_items sys w device_name file_extension found_items
          (if list_ex (\<lambda>t. src t = item) targets then targets
           else targets @ [\<lparr>src = item, device = device_name,
                            dest_rel = str_replace_char rest os_sep CHR ''/'',
                            cached = False, from_docker = False\<rparr>],
           log))
     \<and> (\<forall>pre tok rest.
        list_all is_ascii item
        \<and> item = pre @ tok @ [os_sep] @ rest \<and> ascii_lower tok = ANCHOR_PATTERN
        \<and> \<not> sublist ANCHOR_PATTERN (ascii_lower (pre @ butlast tok)) \<and> rest \<noteq> [] \<longrightarrow>
        process_items sys w device_name file_extension (item # found_items) (targets, log) =
        process_items sys w device_name file_extension found_items
          (if list_ex (\<lambda>t. src t = item) targets then targets
           else targets @ [\<lparr>src = item, device = device_name,
                            dest_rel = str_replace_char rest os_sep CHR ''/'',
                            cached = False, from_docker = False\<rparr>],
           log))
     \<and> (\<not> sublist ANCHOR_PATTERN (lower sys item) \<longrightarrow>
        process_items sys w device_name file_extension (item # found_items) (targets, log) =
        process_items sys w device_name file_extension found_items
          (if list_ex (\<lambda>t. src t = item) targets then targets
           else targets @ [\<lparr>src = item, device = device_name, dest_rel = basename item,
                            cached = False, from_docker = False\<rparr>],
           log @ [WarningAnchorMissing item]))"
proof (intro conjI allI impI)
  fix lpre lpost pre tok rest
  assume a: "lower sys item = lpre @ ANCHOR_PATTERN @ lpost
        \<and> \<not> sublist ANCHOR_PATTERN (lpre @ butlast ANCHOR_PATTERN)
        \<and> item = pre @ tok @ [os_sep] @ rest
        \<and> length pre = length lpre \<and> length tok = length ANCHOR_PATTERN
        \<and> rest \<noteq> []"
  then have low: "lower sys item = lpre @ ANCHOR_PATTERN @ lpost"
    and first: "\<not> sublist ANCHOR_PATTERN (lpre @ butlast ANCHOR_PATTERN)"
    and item: "item = pre @ tok @ ([os_sep] @ rest)"
    and pre: "length pre = length lpre" and tok: "length tok = length ANCHOR_PATTERN"
    and rest: "rest \<noteq> []"
    by blast+
  show "process_items sys w device_name file_extension (item # found_items) (targets, log) =
        process_items sys w device_name file_extension found_items
          (if list_ex (\<lambda>t. src t = item) targets then targets
           else targets @ [\<lparr>src = item, device = device_name,
                            dest_rel = str_replace_char rest os_sep CHR ''/'',
                            cached = False, from_docker = False\<rparr>],
           log)"
    using process_items_anchor_found [OF isf ext low first item pre tok] rest by simp
next
  fix pre tok rest
  assume a: "list_all is_ascii item
        \<and> item = pre @ tok @ [os_sep] @ rest \<and> ascii_lower tok = ANCHOR_PATTERN
        \<and> \<not> sublist ANCHOR_PATTERN (ascii_lower (pre @ butlast tok)) \<and> rest \<noteq> []"
  then have ascii: "list_all is_ascii item"
    and item: "item = pre @ tok @ ([os_sep] @ rest)"
    and t: "ascii_lower tok = ANCHOR_PATTERN"
    and f: "\<not> sublist ANCHOR_PATTERN (ascii_lower (pre @ butlast tok))"
    and rest: "rest \<noteq> []"
    by blast+
  note p = ascii_anchor_position(1) [OF ascii item t f, of sys]
    ascii_anchor_position(2) [OF ascii item t f] ascii_anchor_position(3) [OF ascii item t f]
  have pre: "length pre = length (ascii_lower pre)" by simp
  show "process_items sys w device_name file_extension (item # found_items) (targets, log) =
        process_items sys w device_name file_extension found_items
          (if list_ex (\<lambda>t. src t = item) targets then targets
           else targets @ [\<lparr>src = item, device = device_name,
                            dest_rel = str_replace_char rest os_sep CHR ''/'',
                            cached = False, from_docker = False\<rparr>],
           log)"
    using process_items_anchor_found [OF isf ext p(1) p(2) item pre p(3)] rest by simp
next
  assume "\<not> sublist ANCHOR_PATTERN (lower sys item)"
  then show "process_items sys w device_name file_extension (item # found_items) (targets, log) =
        process_items sys w device_name file_extension found_items
          (if list_ex (\<lambda>t. src t = item) targets then targets
           else targets @ [\<lparr>src = item, device = device_name, dest_rel = basename item,
                            cached = False, from_docker = False\<rparr>],
           log @ [WarningAnchorMissing item])"
    by (rule process_items_anchor_absent [OF isf ext])
qed

lemma zeek_isfile:
  "isfile zeek_world zeek_file"
  "isfile zeek_world ''/opt/zeek/site/local.zeek''"
  "isfile zeek_world zeek_file_capital"
  "isfile zeek_world policy_file"
  "\<not> isdir zeek_world p"
  by (simp_all add: isfile_def isdir_def zeek_world_def empty_world_def zeek_file_def
      zeek_file_capital_def policy_file_def)

lemma zeek_ascii:
  "list_all is_ascii zeek_file"
  "list_all is_ascii ''/opt/zeek/site/local.zeek''"
  "list_all is_ascii zeek_file_capital"
  "list_all is_ascii policy_file"
  "list_all is_ascii ''zeek''"
  "list_all is_ascii ''policy''"
  by (simp_all add: is_ascii_def zeek_file_def zeek_file_capital_def policy_file_def)

lemma ascii_lower_examples:
  "ascii_lower zeek_file = zeek_file"
  "ascii_lower ''/opt/zeek/site/local.zeek'' = ''/opt/zeek/site/local.zeek''"
  "ascii_lower zeek_file_capital = zeek_file"
  "ascii_lower policy_file = policy_file"
  "ascii_lower ''zeek'' = ''zeek''"
  "ascii_lower ''policy'' = ''policy''"
  "ascii_lower ''Policy'' = ''policy''"
  "ascii_lower ''/opt/zeek/share/zeek/'' = ''/opt/zeek/share/zeek/''"
  "ascii_lower ''/srv/rules/base.'' = ''/srv/rules/base.''"
  by (simp_all add: ascii_lower_def ascii_lower_char_def zeek_file_def zeek_file_capital_def
      policy_file_def)

lemma lower_examples:
  "lower sys zeek_file = zeek_file"
  "lower sys ''/opt/zeek/site/local.zeek'' = ''/opt/zeek/site/local.zeek''"
  "lower sys zeek_file_capital = zeek_file"
  "lower sys policy_file = policy_file"
  "lower sys ''zeek'' = ''zeek''"
  "lower sys ''policy'' = ''policy''"
  by (simp_all add: lower_def is_ascii_def ascii_lower_def ascii_lower_char_def zeek_file_def
      zeek_file_capital_def policy_file_def)

lemma zeek_x1: "endswith (lower sys zeek_file) (''.'' @ lower sys ''zeek'')"
  by (simp add: lower_examples) (simp add: endswith_def zeek_file_def)

lemma zeek_x2: "endswith (lower sys ''/opt/zeek/site/local.zeek'') (''.'' @ lower sys ''zeek'')"
  by (simp add: lower_examples) (simp add: endswith_def)

lemma zeek_x3: "endswith (lower sys zeek_file_capital) (''.'' @ lower sys ''zeek'')"
  by (simp add: lower_examples) (simp add: endswith_def zeek_file_def)

lemma zeek_x4: "endswith (lower sys policy_file) (''.'' @ lower sys ''policy'')"
  by (simp add: lower_examples) (simp add: endswith_def policy_file_def)

lemma zeek_first:
  "\<not> sublist ANCHOR_PATTERN (''/opt/zeek/share/zeek/'' @ butlast ANCHOR_PATTERN)"
  "\<not> sublist ANCHOR_PATTERN (''/srv/rules/base.'' @ butlast ANCHOR_PATTERN)"
  by (simp_all add: ANCHOR_PATTERN_def sublist_Cons_right)

lemma zeek_absent: "\<not> sublist ANCHOR_PATTERN (lower sys ''/opt/zeek/site/local.zeek'')"
  by (simp add: lower_examples) (simp add: ANCHOR_PATTERN_def sublist_Cons_right)

lemma zeek_prem:
  "lower sys zeek_file =
     ''/opt/zeek/share/zeek/'' @ ANCHOR_PATTERN @ ''/protocols/ssh/detect-bruteforcing.zeek''
   \<and> \<not> sublist ANCHOR_PATTERN (''/opt/zeek/share/zeek/'' @ butlast ANCHOR_PATTERN)
   \<and> zeek_file = ''/opt/zeek/share/zeek/'' @ ''policy'' @ [os_sep]
        @ ''protocols/ssh/detect-bruteforcing.zeek''
   \<and> length ''/opt/zeek/share/zeek/'' = length ''/opt/zeek/share/zeek/''
   \<and> length ''policy'' = length ANCHOR_PATTERN
   \<and> ''protocols/ssh/detect-bruteforcing.zeek'' \<noteq> []"
proof -
  have low: "lower sys zeek_file =
     ''/opt/zeek/share/zeek/'' @ ANCHOR_PATTERN @ ''/protocols/ssh/detect-bruteforcing.zeek''"
    by (simp add: lower_examples) (simp add: zeek_file_def ANCHOR_PATTERN_def)
  have split: "zeek_file = ''/opt/zeek/share/zeek/'' @ ''policy'' @ [os_sep]
        @ ''protocols/ssh/detect-bruteforcing.zeek''"
    by (simp add: zeek_file_def os_sep_def)
  have len: "length ''policy'' = length ANCHOR_PATTERN" by (simp add: ANCHOR_PATTERN_def)
  have rest: "''protocols/ssh/detect-bruteforcing.zeek'' \<noteq> []" by simp
  from low zeek_first(1) split len rest show ?thesis by blast
qed

lemma zeek_capital_prem:
  "list_all is_ascii zeek_file_capital
   \<and> zeek_file_capital = ''/opt/zeek/share/zeek/'' @ ''Policy'' @ [os_sep]
        @ ''protocols/ssh/detect-bruteforcing.zeek''
   \<and> ascii_lower ''Policy'' = ANCHOR_PATTERN
   \<and> \<not> sublist ANCHOR_PATTERN (ascii_lower (''/opt/zeek/share/zeek/'' @ butlast ''Policy''))
   \<and> ''protocols/ssh/detect-bruteforcing.zeek'' \<noteq> []"
proof -
  have split: "zeek_file_capital = ''/opt/zeek/share/zeek/'' @ ''Policy'' @ [os_sep]
        @ ''protocols/ssh/detect-bruteforcing.zeek''"
    by (simp add: zeek_file_capital_def os_sep_def)
  have tok: "ascii_lower ''Policy'' = ANCHOR_PATTERN"
    by (simp add: ascii_lower_examples ANCHOR_PATTERN_def)
  have first: "\<not> sublist ANCHOR_PATTERN
      (ascii_lower (''/opt/zeek/share/zeek/'' @ butlast ''Policy''))"
    by (simp add: ascii_lower_def ascii_lower_char_def ANCHOR_PATTERN_def sublist_Cons_right)
  have rest: "''protocols/ssh/detect-bruteforcing.zeek'' \<noteq> []" by simp
  from zeek_ascii(3) split tok first rest show ?thesis by blast
qed

theorem exact_file_relative_path_witness:
  "process_found_items quiet_sys zeek_world [zeek_file] ''zeek'' ''zeek'' =
     ([\<lparr>src = zeek_file, device = ''zeek'',
        dest_rel = ''protocols/ssh/detect-bruteforcing.zeek'',
        cached = False, from_docker = False\<rparr>], [])
   \<and> process_found_items quiet_sys zeek_world [zeek_file_capital] ''zeek'' ''zeek'' =
     ([\<lparr>src = zeek_file_capital, device = ''zeek'',
        dest_rel = ''protocols/ssh/detect-bruteforcing.zeek'',
        cached = False, from_docker = False\<rparr>], [])
   \<and> process_found_items quiet_sys zeek_world [''/opt/zeek/site/local.zeek''] ''zeek'' ''zeek'' =
     ([\<lparr>src = ''/opt/zeek/site/local.zeek'', device = ''zeek'', dest_rel = ''local.zeek'',
        cached = False, from_docker = False\<rparr>],
      [WarningAnchorMissing ''/opt/zeek/site/local.zeek''])"
proof -
  have base: "basename ''/opt/zeek/site/local.zeek'' = ''local.zeek''"
    by (simp add: basename_def os_sep_def)
  have a: "process_items quiet_sys zeek_world ''zeek'' ''zeek'' [zeek_file] ([], []) =
      ([\<lparr>src = zeek_file, device = ''zeek'',
         dest_rel = ''protocols/ssh/detect-bruteforcing.zeek'',
         cached = False, from_docker = False\<rparr>], [])"
    by (simp add: exact_file_relative_path [OF zeek_isfile(1) zeek_x1, THEN conjunct1,
          rule_format, OF zeek_prem] del: process_items.simps(2))
  have c: "process_items quiet_sys zeek_world ''zeek'' ''zeek'' [zeek_file_capital] ([], []) =
      ([\<lparr>src = zeek_file_capital, device = ''zeek'',
         dest_rel = ''protocols/ssh/detect-bruteforcing.zeek'',
         cached = False, from_docker = False\<rparr>], [])"
    by (simp add: exact_file_relative_path [OF zeek_isfile(3) zeek_x3, THEN conjunct2,
          THEN conjunct1, rule_format, OF zeek_capital_prem] del: process_items.simps(2))
  have b: "process_items quiet_sys zeek_world ''zeek'' ''zeek''
        [''/opt/zeek/site/local.zeek''] ([], []) =
      ([\<lparr>src = ''/opt/zeek/site/local.zeek'', device = ''zeek'', dest_rel = ''local.zeek'',
         cached = False, from_docker = False\<rparr>],
       [WarningAnchorMissing ''/opt/zeek/site/local.zeek''])"
    by (simp add: exact_file_relative_path [OF zeek_isfile(2) zeek_x2, THEN conjunct2,
          THEN conjunct2, rule_format, OF zeek_absent] base del: process_items.simps(2))
  show ?thesis
    unfolding process_found_items_def using a b c by blast
qed

text \<open>
  Claim C5 as stated fails on a path that holds the anchor in another letter case: the
  token \<open>policy\<close> does not occur in the path, yet the destination-relative path is the
  part after \<open>Policy/\<close>, not the base filename, and no warning is recorded.
\<close>

theorem anchor_case_counterexample:
  "isfile zeek_world zeek_file_capital
   \<and> endswith (lower quiet_sys zeek_file_capital) (''.'' @ lower quiet_sys ''zeek'')
   \<and> \<not> sublist ''policy'' zeek_file_capital
   \<and> process_found_items quiet_sys zeek_world [zeek_file_capital] ''zeek'' ''zeek'' =
       ([\<lparr>src = zeek_file_capital, device = ''zeek'',
          dest_rel = ''protocols/ssh/detect-bruteforcing.zeek'',
          cached = False, from_docker = False\<rparr>], [])
   \<and> basename zeek_file_capital = ''detect-bruteforcing.zeek''"
proof -
  have absent: "\<not> sublist ''policy'' zeek_file_capital"
    by (simp add: zeek_file_capital_def sublist_Cons_right)
  have low: "lower quiet_sys zeek_file_capital =
     ''/opt/zeek/share/zeek/'' @ ANCHOR_PATTERN @ ''/protocols/ssh/detect-bruteforcing.zeek''"
    by (simp add: lower_examples) (simp add: zeek_file_def ANCHOR_PATTERN_def)
  have cut: "drop (length ''/opt/zeek/share/zeek/'' + length ANCHOR_PATTERN + 1)
      zeek_file_capital = ''protocols/ssh/detect-bruteforcing.zeek''"
    by (simp add: zeek_file_capital_def ANCHOR_PATTERN_def)
  have e: "exact_file_entries quiet_sys zeek_file_capital =
      ([(zeek_file_capital, ''protocols/ssh/detect-bruteforcing.zeek'')], [])"
    using exact_file_entries_found [OF low zeek_first(1)] unfolding cut by simp
  have p: "process_found_items quiet_sys zeek_world [zeek_file_capital] ''zeek'' ''zeek'' =
       ([\<lparr>src = zeek_file_capital, device = ''zeek'',
          dest_rel = ''protocols/ssh/detect-bruteforcing.zeek'',
          cached = False, from_docker = False\<rparr>], [])"
    unfolding process_found_items_def process_items_exact [OF zeek_isfile(3) zeek_x3 e]
    by simp
  have b: "basename zeek_file_capital = ''detect-bruteforcing.zeek''"
    by (simp add: basename_def os_sep_def zeek_file_capital_def)
  from zeek_isfile(3) zeek_x3 [of quiet_sys] absent p b show ?thesis by blast
qed

text \<open>
  The index found in the lower-cased path is applied to the path itself. Where
  lower-casing lengthens the part before the anchor, the cut falls later: the file
  \<open>a.zeek\<close> under a directory named with a capital dotted I is collected as \<open>.zeek\<close>.
\<close>

lemma dotted_lower:
  "lower dotted_sys dotted_file =
     ([os_sep, CHR ''i'', combining_dot] @ ''/'') @ ANCHOR_PATTERN @ ''/a.zeek''"
  by (simp add: lower_def is_ascii_def dotted_file_def dotted_capital_def dotted_sys_def
      quiet_sys_def combining_dot_def ascii_lower_char_def os_sep_def ANCHOR_PATTERN_def)

lemma dotted_capital_example:
  "process_found_items dotted_sys dotted_world [dotted_file] ''zeek'' ''zeek'' =
     ([\<lparr>src = dotted_file, device = ''zeek'', dest_rel = ''.zeek'',
        cached = False, from_docker = False\<rparr>], [])"
proof -
  have isf: "isfile dotted_world dotted_file"
    by (simp add: isfile_def dotted_world_def)
  have low: "lower dotted_sys ''zeek'' = ''zeek''"
    by (simp add: lower_def is_ascii_def ascii_lower_def ascii_lower_char_def)
  have ext: "endswith (lower dotted_sys dotted_file) (''.'' @ lower dotted_sys ''zeek'')"
    unfolding dotted_lower low by (simp add: endswith_def ANCHOR_PATTERN_def)
  have first: "\<not> sublist ANCHOR_PATTERN
      (([os_sep, CHR ''i'', combining_dot] @ ''/'') @ butlast ANCHOR_PATTERN)"
    by (simp add: ANCHOR_PATTERN_def sublist_Cons_right os_sep_def combining_dot_def)
  have cut: "drop (length ([os_sep, CHR ''i'', combining_dot] @ ''/'') + length ANCHOR_PATTERN + 1)
      dotted_file = ''.zeek''"
    by (simp add: dotted_file_def ANCHOR_PATTERN_def)
  have e: "exact_file_entries dotted_sys dotted_file = ([(dotted_file, ''.zeek'')], [])"
    using exact_file_entries_found [OF dotted_lower first] unfolding cut by simp
  show ?thesis
    unfolding process_found_items_def process_items_exact [OF isf ext e]
    by simp
qed

lemma process_items_empty_path:
  assumes isf: "isfile w item"
      and ext: "endswith (lower sys item) (''.'' @ lower sys file_extension)"
      and low: "lower sys item = lpre @ ANCHOR_PATTERN @ lpost"
      and first: "\<not> sublist ANCHOR_PATTERN (lpre @ butlast ANCHOR_PATTERN)"
      and short: "length item \<le> length lpre + length ANCHOR_PATTERN + 1"
  shows "process_items sys w device_name file_extension (item # found_items) (targets, log) =
         process_items sys w device_name file_extension found_items
           (targets, log @ [ErrorNoRelativePath item])"
    and "process_found_items sys w [item] device_name file_extension =
         ([], [ErrorNoRelativePath item])"
proof -
  have d: "drop (length lpre + length ANCHOR_PATTERN + 1) item = []" using short by simp
  have e: "exact_file_entries sys item = ([], [ErrorNoRelativePath item])"
    using exact_file_entries_found [OF low first] unfolding d by simp
  show "process_items sys w device_name file_extension (item # found_items) (targets, log) =
         process_items sys w device_name file_extension found_items
           (targets, log @ [ErrorNoRelativePath item])"
    using process_items_exact [OF isf ext e] by simp
  have "process_items sys w device_name file_extension [item] ([], []) =
        process_items sys w device_name file_extension [] ([], [] @ [ErrorNoRelativePath item])"
    using process_items_exact [OF isf ext e, of device_name "[]" "[]" "[]"] by simp
  then show "process_found_items sys w [item] device_name file_extension =
         ([], [ErrorNoRelativePath item])"
    unfolding process_found_items_def by simp
qed

text \<open>
  Claim C10. An exact-file match whose lower-cased path holds the anchor and whose
  computed relative path is empty (the path ends at most one character after the index
  of the anchor's first occurrence plus the anchor's length; for an ASCII path: at most
  one character follows the anchor in the path) adds no target: the loop records an
  error for it, whereas an exact-file match without the anchor is kept under its base
  filename with a warning.
\<close>

theorem empty_relative_path_dropped:
  assumes isf: "isfile w item"
      and ext: "endswith (lower sys item) (''.'' @ lower sys file_extension)"
  shows
    "(\<forall>lpre lpost.
        lower sys item = lpre @ ANCHOR_PATTERN @ lpost
        \<and> \<not> sublist ANCHOR_PATTERN (lpre @ butlast ANCHOR_PATTERN)
        \<and> length item \<le> length lpre + length ANCHOR_PATTERN + 1 \<longrightarrow>
        process_items sys w device_name file_extension (item # found_items) (targets, log) =
        process_items sys w device_name file_extension found_items
          (targets, log @ [ErrorNoRelativePath item])
        \<and> process_found_items sys w [item] device_name file_extension =
            ([], [ErrorNoRelativePath item]))
     \<and> (\<forall>pre tok tail.
        list_all is_ascii item \<and> item = pre @ tok @ tail \<and> ascii_lower tok = ANCHOR_PATTERN
        \<and> \<not> sublist ANCHOR_PATTERN (ascii_lower (pre @ butlast tok))
        \<and> length tail \<le> 1 \<longrightarrow>
        process_items sys w device_name file_extension (item # found_items) (targets, log) =
        process_items sys w device_name file_extension found_items
          (targets, log @ [ErrorNoRelativePath item])
        \<and> process_found_items sys w [item] device_name file_extension =
            ([], [ErrorNoRelativePath item]))
     \<and> (\<forall>other extension.
           isfile w other \<and> endswith (lower sys other) (''.'' @ lower sys extension)
           \<and> \<not> sublist ANCHOR_PATTERN (lower sys other) \<longrightarrow>
           process_found_items sys w [other] device_name extension =
             ([\<lparr>src = other, device = device_name, dest_rel = basename other,
                cached = False, from_docker = False\<rparr>],
              [WarningAnchorMissing other]))"
proof -
  have general: "process_items sys w device_name file_extension (item # found_items)
          (targets, log) =
        process_items sys w device_name file_extension found_items
          (targets, log @ [ErrorNoRelativePath item])
        \<and> process_found_items sys w [item] device_name file_extension =
            ([], [ErrorNoRelativePath item])"
    if h: "lower sys item = lpre @ ANCHOR_PATTERN @ lpost
        \<and> \<not> sublist ANCHOR_PATTERN (lpre @ butlast ANCHOR_PATTERN)
        \<and> length item \<le> length lpre + length ANCHOR_PATTERN + 1" for lpre lpost
  proof -
    from h have low: "lower sys item = lpre @ ANCHOR_PATTERN @ lpost"
      and first: "\<not> sublist ANCHOR_PATTERN (lpre @ butlast ANCHOR_PATTERN)"
      and short: "length item \<le> length lpre + length ANCHOR_PATTERN + 1"
      by blast+
    show ?thesis
      using process_items_empty_path [OF isf ext low first short] by blast
  qed
  have ascii: "process_items sys w device_name file_extension (item # found_items)
          (targets, log) =
        process_items sys w device_name file_extension found_items
          (targets, log @ [ErrorNoRelativePath item])
        \<and> process_found_items sys w [item] device_name file_extension =
            ([], [ErrorNoRelativePath item])"
    if h: "list_all is_ascii item \<and> item = pre @ tok @ tail
        \<and> ascii_lower tok = ANCHOR_PATTERN
        \<and> \<not> sublist ANCHOR_PATTERN (ascii_lower (pre @ butlast tok))
        \<and> length tail \<le> 1" for pre tok tail
  proof -
    from h have a: "list_all is_ascii item" and i: "item = pre @ tok @ tail"
      and t: "ascii_lower tok = ANCHOR_PATTERN"
      and f: "\<not> sublist ANCHOR_PATTERN (ascii_lower (pre @ butlast tok))"
      and s: "length tail \<le> 1"
      by blast+
    have short: "length item \<le> length (ascii_lower pre) + length ANCHOR_PATTERN + 1"
      using i s ascii_anchor_position(3) [OF a i t f] by simp
    show ?thesis
      using process_items_empty_path [OF isf ext
          ascii_anchor_position(1) [OF a i t f, of sys] ascii_anchor_position(2) [OF a i t f]
          short]
      by blast
  qed
  have kept: "process_found_items sys w [other] device_name extension =
             ([\<lparr>src = other, device = device_name, dest_rel = basename other,
                cached = False, from_docker = False\<rparr>],
              [WarningAnchorMissing other])"
    if o: "isfile w other \<and> endswith (lower sys other) (''.'' @ lower sys extension)
           \<and> \<not> sublist ANCHOR_PATTERN (lower sys other)" for other extension
  proof -
    from o have f: "isfile w other"
      and x: "endswith (lower sys other) (''.'' @ lower sys extension)"
      and n: "\<not> sublist ANCHOR_PATTERN (lower sys other)"
      by blast+
    have "process_items sys w device_name extension [other] ([], []) =
          process_items sys w device_name extension []
            (add_targets device_name [(other, basename other)] [],
             [] @ [WarningAnchorMissing other])"
      by (rule process_items_exact [OF f x exact_file_entries_no_anchor [OF n]])
    then show ?thesis unfolding process_found_items_def by simp
  qed
  from general ascii kept show ?thesis by blast
qed

theorem empty_relative_path_dropped_witness:
  "process_found_items quiet_sys zeek_world [policy_file] ''rules'' ''policy'' =
     ([], [ErrorNoRelativePath policy_file])
   \<and> process_found_items quiet_sys zeek_world [''/opt/zeek/site/local.zeek''] ''rules'' ''zeek'' =
     ([\<lparr>src = ''/opt/zeek/site/local.zeek'', device = ''rules'', dest_rel = ''local.zeek'',
        cached = False, from_docker = False\<rparr>],
      [WarningAnchorMissing ''/opt/zeek/site/local.zeek''])"
proof -
  have low: "lower quiet_sys policy_file = ''/srv/rules/base.'' @ ANCHOR_PATTERN @ []"
    by (simp add: lower_examples) (simp add: policy_file_def ANCHOR_PATTERN_def)
  have short: "length policy_file \<le> length ''/srv/rules/base.'' + length ANCHOR_PATTERN + 1"
    by (simp add: policy_file_def ANCHOR_PATTERN_def)
  have prem: "lower quiet_sys policy_file = ''/srv/rules/base.'' @ ANCHOR_PATTERN @ []
      \<and> \<not> sublist ANCHOR_PATTERN (''/srv/rules/base.'' @ butlast ANCHOR_PATTERN)
      \<and> length policy_file \<le> length ''/srv/rules/base.'' + length ANCHOR_PATTERN + 1"
    using low zeek_first(2) short by blast
  have split: "policy_file = ''/srv/rules/base.'' @ ''policy'' @ []"
    by (simp add: policy_file_def)
  have first: "\<not> sublist ANCHOR_PATTERN (ascii_lower (''/srv/rules/base.'' @ butlast ''policy''))"
    by (simp add: ascii_lower_def ascii_lower_char_def ANCHOR_PATTERN_def sublist_Cons_right)
  have tok: "ascii_lower ''policy'' = ANCHOR_PATTERN"
    by (simp add: ascii_lower_examples ANCHOR_PATTERN_def)
  have len: "length ([] :: string) \<le> 1" by simp
  have prem2: "list_all is_ascii policy_file \<and> policy_file = ''/srv/rules/base.'' @ ''policy'' @ []
      \<and> ascii_lower ''policy'' = ANCHOR_PATTERN
      \<and> \<not> sublist ANCHOR_PATTERN (ascii_lower (''/srv/rules/base.'' @ butlast ''policy''))
      \<and> length ([] :: string) \<le> 1"
    using zeek_ascii(4) split tok first len by blast
  note t = empty_relative_path_dropped [OF zeek_isfile(4) zeek_x4, of quiet_sys "''rules''"]
  have a: "process_found_items quiet_sys zeek_world [policy_file] ''rules'' ''policy'' =
     ([], [ErrorNoRelativePath policy_file])"
    using t [THEN conjunct1, rule_format, OF prem] by blast
  have a2: "process_found_items quiet_sys zeek_world [policy_file] ''rules'' ''policy'' =
     ([], [ErrorNoRelativePath policy_file])"
    using t [THEN conjunct2, THEN conjunct1, rule_format, OF prem2] by blast
  have other: "isfile zeek_world ''/opt/zeek/site/local.zeek''
      \<and> endswith (lower quiet_sys ''/opt/zeek/site/local.zeek'') (''.'' @ lower quiet_sys ''zeek'')
      \<and> \<not> sublist ANCHOR_PATTERN (lower quiet_sys ''/opt/zeek/site/local.zeek'')"
    using zeek_isfile(2) zeek_x2 zeek_absent by blast
  have b: "process_found_items quiet_sys zeek_world [''/opt/zeek/site/local.zeek''] ''rules''
       ''zeek'' =
     ([\<lparr>src = ''/opt/zeek/site/local.zeek'', device = ''rules'',
        dest_rel = basename ''/opt/zeek/site/local.zeek'',
        cached = False, from_docker = False\<rparr>],
      [WarningAnchorMissing ''/opt/zeek/site/local.zeek''])"
    using t [THEN conjunct2, THEN conjunct2, rule_format, OF other] .
  have base: "basename ''/opt/zeek/site/local.zeek'' = ''local.zeek''"
    by (simp add: basename_def os_sep_def)
  show ?thesis using a a2 b by (simp add: base)
qed

lemma process_items_skips_without_extension:
  "isfile w item \<Longrightarrow> \<not> isdir w item \<Longrightarrow> \<not> endswith (lower sys item) ''.'' \<Longrightarrow>
   process_items sys w device_name [] (item # found_items) (targets, log) =
   process_items sys w device_name [] found_items (targets, log)"
  by (simp add: lower_def ascii_lower_def)

lemma walk_entries_without_extension:
  "map fst (walk_entries sys directory_path [] (root_dir, filenames)) =
     map (\<lambda>filename. abspath sys (path_join root_dir filename)) filenames"
  by (simp add: walk_entries_def Let_def)

text \<open>
  Claim C9 on the code. With an empty extension the exact-file test of
  \<open>process_found_items\<close> asks for a path ending in a dot, so an exact file path is not
  kept: the found Zeek script yields no target, while \<open>enumerate_directory_files\<close>, which
  guards its filter with \<open>not file_extension\<close>, keeps the same file.
\<close>

theorem empty_extension_drops_exact_file:
  "isfile zeek_world zeek_file
   \<and> process_found_items quiet_sys zeek_world [zeek_file] ''zeek'' [] = ([], [])
   \<and> enumerate_directory_files quiet_sys zeek_world zeek_file [] =
       [(zeek_file, ''detect-bruteforcing.zeek'')]"
proof -
  have nodot: "\<not> endswith (lower quiet_sys zeek_file) ''.''"
    by (simp add: lower_examples) (simp add: endswith_def zeek_file_def)
  have p: "process_found_items quiet_sys zeek_world [zeek_file] ''zeek'' [] = ([], [])"
    unfolding process_found_items_def
      process_items_skips_without_extension [OF zeek_isfile(1) zeek_isfile(5) nodot]
    by simp
  have b: "basename zeek_file = ''detect-bruteforcing.zeek''"
    by (simp add: basename_def os_sep_def zeek_file_def)
  have a: "abspath quiet_sys zeek_file = zeek_file"
    by (simp add: quiet_sys_def zeek_file_def)
  have e: "enumerate_directory_files quiet_sys zeek_world zeek_file [] =
       [(zeek_file, ''detect-bruteforcing.zeek'')]"
    using zeek_isfile(1) by (simp add: enumerate_directory_files_def Let_def a b)
  from zeek_isfile(1) p e show ?thesis by blast
qed

section \<open>Properties of the container extraction\<close>

text \<open>
  Claim C6. For an appliance whose container resolves, runs and holds the path: the
  first method called is the direct copy; when it reports success it is the only method
  called and the state is the one it left; when it reports failure the archive stream is
  called next, on the state the copy left, and no third call follows. When a method
  succeeded and the destination is not empty the targets are the files found under it;
  when both methods fail the appliance contributes no target and the scan goes on with
  the remaining appliances, the targets collected so far unchanged.
\<close>

theorem container_extraction_fallback:
  assumes info: "get_container_info sys w container_identifier = Some info"
      and running: "is_running info"
      and path: "path_exists_in_container sys w (resolved_id info) source_path"
  shows
    "(let temp = temp_destination_of device_name info;
          w2 = makedirs sys temp (if exists w temp then rmtree sys temp w else w);
          (cp_ok, w_cp) =
            copy_directory_from_container sys (resolved_id info) source_path temp w2;
          (tar_ok, w_tar) =
            extract_directory_using_tar sys (resolved_id info) source_path temp w_cp;
          (targets, attempted, w') =
            collect_from_docker_container sys container_identifier source_path device_name
              file_extension w
      in (cp_ok \<longrightarrow> attempted = [''docker cp''] \<and> w' = w_cp)
         \<and> (\<not> cp_ok \<longrightarrow> attempted = [''docker cp'', ''tar stream''] \<and> w' = w_tar)
         \<and> ((cp_ok \<or> tar_ok) \<and> iterdir_nonempty sys w' temp \<longrightarrow>
              targets = concat (map (collected_entries sys temp device_name file_extension)
                                  (walk sys w' temp)))
         \<and> (\<not> cp_ok \<and> \<not> tar_ok \<longrightarrow>
              targets = []
              \<and> (\<forall>use_cache verified_cache device_config devices all_targets new_path_cache.
                   type device_config = Docker
                   \<and> container device_config = container_identifier
                   \<and> container_path device_config = source_path
                   \<and> file_type device_config = file_extension \<longrightarrow>
                   scan_devices sys use_cache verified_cache
                     ((device_name, device_config) # devices) (all_targets, new_path_cache, w) =
                   scan_devices sys use_cache verified_cache devices
                     (all_targets, AList.update device_name [] new_path_cache, w_tar))))"
proof -
  define temp where "temp = temp_destination_of device_name info"
  define w2 where "w2 = makedirs sys temp (if exists w temp then rmtree sys temp w else w)"
  obtain cp_ok w_cp where cp:
    "copy_directory_from_container sys (resolved_id info) source_path temp w2 = (cp_ok, w_cp)"
    by (cases "copy_directory_from_container sys (resolved_id info) source_path temp w2")
  obtain tar_ok w_tar where tar:
    "extract_directory_using_tar sys (resolved_id info) source_path temp w_cp = (tar_ok, w_tar)"
    by (cases "extract_directory_using_tar sys (resolved_id info) source_path temp w_cp")
  have methods: "try_methods (extraction_methods sys (resolved_id info) source_path temp) [] w2 =
      (if cp_ok then (True, [''docker cp''], w_cp)
       else if tar_ok then (True, [''docker cp'', ''tar stream''], w_tar)
       else (False, [''docker cp'', ''tar stream''], w_tar))"
    by (simp add: extraction_methods_def cp tar)
  have collect: "collect_from_docker_container sys container_identifier source_path device_name
        file_extension w =
      (if cp_ok then
         (if iterdir_nonempty sys w_cp temp
          then concat (map (collected_entries sys temp device_name file_extension)
                         (walk sys w_cp temp))
          else [], [''docker cp''], w_cp)
       else
         (if tar_ok \<and> iterdir_nonempty sys w_tar temp
          then concat (map (collected_entries sys temp device_name file_extension)
                         (walk sys w_tar temp))
          else [], [''docker cp'', ''tar stream''], w_tar))"
    unfolding collect_from_docker_container_def
    by (simp add: info running path Let_def temp_def [symmetric] w2_def [symmetric] methods)
  have continue: "scan_devices sys use_cache verified_cache
        ((device_name, device_config) # devices) (all_targets, new_path_cache, w) =
      scan_devices sys use_cache verified_cache devices
        (all_targets, AList.update device_name [] new_path_cache, w_tar)"
    if "\<not> cp_ok" "\<not> tar_ok" "type device_config = Docker"
       "container device_config = container_identifier"
       "container_path device_config = source_path"
       "file_type device_config = file_extension"
    for use_cache verified_cache device_config devices all_targets new_path_cache
    using that by (simp add: collect Let_def)
  show ?thesis
  proof (cases cp_ok)
    case True
    show ?thesis
      unfolding Let_def temp_def [symmetric] w2_def [symmetric]
      by (simp add: cp tar collect True del: scan_devices.simps)
  next
    case no_cp: False
    show ?thesis
    proof (cases tar_ok)
      case True
      show ?thesis
        unfolding Let_def temp_def [symmetric] w2_def [symmetric]
        by (simp add: cp tar collect no_cp True del: scan_devices.simps)
    next
      case no_tar: False
      show ?thesis
        unfolding Let_def temp_def [symmetric] w2_def [symmetric]
        using continue [OF no_cp no_tar]
        by (simp add: cp tar collect no_cp no_tar del: scan_devices.simps)
    qed
  qed
qed

lemma waf_temp_destination: "temp_destination_of ''waf'' waf_info = waf_temp"
  by (simp add: temp_destination_of_def waf_info_def waf_temp_def DOCKER_TEMP_DIR_def
      OUTPUT_DIR_def path_join_def startswith_def endswith_def os_sep_def)

lemma docker_fail_methods:
  "copy_directory_from_container docker_fail_sys ident source dst w = (False, w)"
  "extract_directory_using_tar docker_fail_sys ident source dst w = (False, w)"
  by (simp_all add: copy_directory_from_container_def extract_directory_using_tar_def
      docker_fail_sys_def quiet_sys_def)

lemma docker_tar_methods:
  "copy_directory_from_container docker_tar_sys ident source dst w = (False, w)"
  "extract_directory_using_tar docker_tar_sys ident source dst w =
     (True, w\<lparr>files := (files w)(dst @ ''/rule.json'' \<mapsto> ''{}'')\<rparr>)"
  by (simp_all add: copy_directory_from_container_def extract_directory_using_tar_def
      docker_tar_sys_def docker_fail_sys_def quiet_sys_def)

theorem container_extraction_fallback_witness:
  "collect_from_docker_container docker_fail_sys ''waf'' ''/etc/nginx/waf/rule'' ''waf'' ''json''
     empty_world = ([], [''docker cp'', ''tar stream''], empty_world)
   \<and> scan_devices docker_fail_sys False []
       [(''waf'', waf_config), (''suricata'', suricata_config)] ([], [], empty_world) =
     scan_devices docker_fail_sys False [] [(''suricata'', suricata_config)]
       ([], [(''waf'', [])], empty_world)
   \<and> fst (collect_from_docker_container docker_tar_sys ''waf'' ''/etc/nginx/waf/rule'' ''waf''
            ''json'' empty_world) =
       [\<lparr>src = waf_temp @ ''/rule.json'', device = ''waf'', dest_rel = ''rule.json'',
         cached = False, from_docker = True\<rparr>]
   \<and> fst (snd (collect_from_docker_container docker_tar_sys ''waf'' ''/etc/nginx/waf/rule''
                 ''waf'' ''json'' empty_world)) = [''docker cp'', ''tar stream'']"
proof -
  have i1: "get_container_info docker_fail_sys empty_world ''waf'' = Some waf_info"
    by (simp add: docker_fail_sys_def quiet_sys_def)
  have i2: "get_container_info docker_tar_sys empty_world ''waf'' = Some waf_info"
    by (simp add: docker_tar_sys_def docker_fail_sys_def quiet_sys_def)
  have r: "is_running waf_info" by (simp add: waf_info_def)
  have p1: "path_exists_in_container docker_fail_sys empty_world (resolved_id waf_info)
              ''/etc/nginx/waf/rule''"
    by (simp add: docker_fail_sys_def quiet_sys_def)
  have p2: "path_exists_in_container docker_tar_sys empty_world (resolved_id waf_info)
              ''/etc/nginx/waf/rule''"
    by (simp add: docker_tar_sys_def docker_fail_sys_def quiet_sys_def)
  have cfg: "type waf_config = Docker" "container waf_config = ''waf''"
      "container_path waf_config = ''/etc/nginx/waf/rule''" "file_type waf_config = ''json''"
    by (simp_all add: waf_config_def)
  have mk1: "makedirs docker_fail_sys p w = w" "rmtree docker_fail_sys p w = w" for p w
    by (simp_all add: docker_fail_sys_def quiet_sys_def)
  have mk2: "makedirs docker_tar_sys p w = w" "rmtree docker_tar_sys p w = w" for p w
    by (simp_all add: docker_tar_sys_def docker_fail_sys_def quiet_sys_def)
  have fail: "collect_from_docker_container docker_fail_sys ''waf'' ''/etc/nginx/waf/rule''
        ''waf'' ''json'' empty_world = ([], [''docker cp'', ''tar stream''], empty_world)
      \<and> scan_devices docker_fail_sys False []
          [(''waf'', waf_config), (''suricata'', suricata_config)] ([], [], empty_world) =
        scan_devices docker_fail_sys False [] [(''suricata'', suricata_config)]
          ([], [(''waf'', [])], empty_world)"
    using container_extraction_fallback [OF i1 r p1, of "''waf''" "''json''"] cfg
    by (simp add: Let_def waf_temp_destination docker_fail_methods mk1 split: prod.splits
        del: scan_devices.simps)
  have walk: "walk docker_tar_sys (empty_world\<lparr>files := (files empty_world)(waf_temp @ ''/rule.json'' \<mapsto> ''{}'')\<rparr>) waf_temp
      = [(waf_temp, [''rule.json''])]"
    by (simp add: docker_tar_sys_def docker_fail_sys_def quiet_sys_def)
  have nonempty: "iterdir_nonempty docker_tar_sys (empty_world\<lparr>files := (files empty_world)(waf_temp @ ''/rule.json'' \<mapsto> ''{}'')\<rparr>) waf_temp"
    by (simp add: docker_tar_sys_def docker_fail_sys_def quiet_sys_def)
  have entry: "collected_entries docker_tar_sys waf_temp ''waf'' ''json'' (waf_temp, [''rule.json''])
      = [\<lparr>src = waf_temp @ ''/rule.json'', device = ''waf'', dest_rel = ''rule.json'',
         cached = False, from_docker = True\<rparr>]"
    by (simp add: collected_entries_def extension_matches_def lower_def is_ascii_def
        ascii_lower_def ascii_lower_char_def endswith_def path_join_def startswith_def
        os_sep_def waf_temp_def docker_tar_sys_def docker_fail_sys_def quiet_sys_def)
  have tar: "fst (collect_from_docker_container docker_tar_sys ''waf'' ''/etc/nginx/waf/rule''
            ''waf'' ''json'' empty_world) =
       [\<lparr>src = waf_temp @ ''/rule.json'', device = ''waf'', dest_rel = ''rule.json'',
         cached = False, from_docker = True\<rparr>]
     \<and> fst (snd (collect_from_docker_container docker_tar_sys ''waf'' ''/etc/nginx/waf/rule''
                 ''waf'' ''json'' empty_world)) = [''docker cp'', ''tar stream'']"
    using container_extraction_fallback [OF i2 r p2, of "''waf''" "''json''"]
    by (simp add: Let_def waf_temp_destination docker_tar_methods mk2 walk nonempty entry
        split: prod.splits del: scan_devices.simps)
  from fail tar show ?thesis by blast
qed

section \<open>Properties of the crash-safe copy\<close>

lemma temp_path_differs: "destination @ ''.tmp'' \<noteq> destination"
  by simp

lemma basename_no_sep: "\<not> startswith (basename p) [os_sep]"
proof
  assume s: "startswith (basename p) [os_sep]"
  then have "basename p \<noteq> []" by (auto simp: startswith_def)
  then obtain c cs where b: "basename p = c # cs" by (cases "basename p") auto
  with s have c: "c = os_sep" by (simp add: startswith_def)
  have "c \<in> set (basename p)" using b by simp
  then have "c \<in> set (takeWhile (\<lambda>c. c \<noteq> os_sep) (rev p))" by (simp add: basename_def)
  then have "c \<noteq> os_sep" by (rule set_takeWhileD [THEN conjunct2])
  with c show False by simp
qed

lemma path_join_longer: "\<not> startswith b [os_sep] \<Longrightarrow> length a \<le> length (path_join a b)"
  by (simp add: path_join_def)

lemma temp_entry_differs:
  "path_join (destination @ ''.tmp'') (basename source) \<noteq> destination"
proof
  assume e: "path_join (destination @ ''.tmp'') (basename source) = destination"
  have "length (destination @ ''.tmp'') \<le>
      length (path_join (destination @ ''.tmp'') (basename source))"
    by (rule path_join_longer [OF basename_no_sep])
  with e show False by simp
qed

lemma shutil_copy2_cases:
  "shutil_copy2 sys source dst w = (ok, w1) \<Longrightarrow>
   (ok \<longrightarrow> files w source \<noteq> None
       \<and> files w1 (if isdir w dst then path_join dst (basename source) else dst)
           = files w source)
   \<and> (\<forall>p. p \<noteq> (if isdir w dst then path_join dst (basename source) else dst) \<longrightarrow>
          files w1 p = files w p)
   \<and> dirs w1 = dirs w"
  unfolding shutil_copy2_def Let_def
  by (cases "files w source";
      cases "copy2_fault sys w source (if isdir w dst then path_join dst (basename source) else dst)")
     (auto split: if_splits)

lemma os_replace_failed: "os_replace sys source dst w = (False, w2) \<Longrightarrow> w2 = w"
  by (auto simp: os_replace_def split: option.splits if_splits)

lemma os_replace_file:
  "os_replace sys source dst w = (True, w2) \<Longrightarrow> \<not> isdir w source \<Longrightarrow> source \<noteq> dst \<Longrightarrow>
   files w2 dst = files w source \<and> files w2 source = None
   \<and> (\<forall>p. p \<noteq> dst \<and> p \<noteq> source \<longrightarrow> files w2 p = files w p)
   \<and> dirs w2 = dirs w"
  by (auto simp: os_replace_def split: option.splits if_splits)

lemma safe_copy_cleanup_cases:
  "safe_copy_cleanup sys temp_path w = (ok, w') \<Longrightarrow>
   \<not> ok \<and> (\<forall>p. p \<noteq> temp_path \<longrightarrow> files w' p = files w p) \<and> dirs w' = dirs w
   \<and> (\<not> isdir w temp_path \<and> \<not> remove_fails sys w temp_path \<longrightarrow> files w' temp_path = None)"
  by (auto simp: safe_copy_cleanup_def os_remove_def exists_def isfile_def split: if_splits)

lemma safe_copy_unfold:
  assumes copy: "shutil_copy2 sys source (destination @ ''.tmp'') w = (copied_ok, w1)"
      and rep: "os_replace sys (destination @ ''.tmp'') destination w1 = (replaced_ok, w2)"
  shows "safe_copy sys source destination w =
     (if copied_ok \<and> replaced_ok then (True, w2)
      else safe_copy_cleanup sys (destination @ ''.tmp'') w1)"
proof (cases "copied_ok \<and> replaced_ok")
  case True
  then show ?thesis using copy rep by (simp add: safe_copy_def)
next
  case False
  show ?thesis
  proof (cases copied_ok)
    case c: False
    then show ?thesis using copy by (simp add: safe_copy_def)
  next
    case c: True
    with False have r: "\<not> replaced_ok" by simp
    have "w2 = w1" using rep r os_replace_failed [of sys _ destination w1 w2] by simp
    then show ?thesis using copy rep c r by (simp add: safe_copy_def)
  qed
qed

lemma safe_copy_keeps_destination:
  assumes safe: "safe_copy sys source destination w = (False, w')"
  shows "files w' destination = files w destination"
proof -
  let ?temp = "destination @ ''.tmp''"
  let ?target = "if isdir w ?temp then path_join ?temp (basename source) else ?temp"
  obtain copied_ok w1 where copy: "shutil_copy2 sys source ?temp w = (copied_ok, w1)"
    by (cases "shutil_copy2 sys source ?temp w")
  obtain replaced_ok w2 where rep: "os_replace sys ?temp destination w1 = (replaced_ok, w2)"
    by (cases "os_replace sys ?temp destination w1")
  have t: "destination \<noteq> ?target"
    using temp_entry_differs [of destination source] by auto
  have c: "files w1 destination = files w destination"
    using shutil_copy2_cases [OF copy] t by blast
  have both: "\<not> (copied_ok \<and> replaced_ok)"
    using safe safe_copy_unfold [OF copy rep] by auto
  then have cl: "safe_copy_cleanup sys ?temp w1 = (False, w')"
    using safe safe_copy_unfold [OF copy rep] by (auto split: if_splits)
  have "files w' destination = files w1 destination"
    using safe_copy_cleanup_cases [OF cl] temp_path_differs [of destination] by metis
  with c show ?thesis by simp
qed

lemma safe_copy_result:
  assumes copy: "shutil_copy2 sys source (destination @ ''.tmp'') w = (copied_ok, w1)"
      and safe: "safe_copy sys source destination w = (ok, w')"
      and nodir: "\<not> isdir w (destination @ ''.tmp'')"
  shows "(ok \<longrightarrow> files w source \<noteq> None \<and> files w' destination = files w source
                \<and> files w' (destination @ ''.tmp'') = None)
       \<and> (\<not> ok \<and> \<not> remove_fails sys w1 (destination @ ''.tmp'') \<longrightarrow>
              files w' (destination @ ''.tmp'') = None)
       \<and> (\<forall>p. p \<noteq> destination \<and> p \<noteq> destination @ ''.tmp'' \<longrightarrow> files w' p = files w p)
       \<and> dirs w' = dirs w"
proof -
  let ?temp = "destination @ ''.tmp''"
  obtain replaced_ok w2 where rep: "os_replace sys ?temp destination w1 = (replaced_ok, w2)"
    by (cases "os_replace sys ?temp destination w1")
  have c: "(copied_ok \<longrightarrow> files w source \<noteq> None \<and> files w1 ?temp = files w source)"
    "\<forall>p. p \<noteq> ?temp \<longrightarrow> files w1 p = files w p" "dirs w1 = dirs w"
    using shutil_copy2_cases [OF copy] nodir by simp_all
  have nodir1: "\<not> isdir w1 ?temp" using nodir c(3) by (simp add: isdir_def)
  show ?thesis
  proof (cases "copied_ok \<and> replaced_ok")
    case True
    have eq: "ok" "w' = w2" using safe safe_copy_unfold [OF copy rep] True by simp_all
    have r: "files w2 destination = files w1 ?temp" "files w2 ?temp = None"
      "\<forall>p. p \<noteq> destination \<and> p \<noteq> ?temp \<longrightarrow> files w2 p = files w1 p" "dirs w2 = dirs w1"
      using os_replace_file [OF _ nodir1 temp_path_differs, of sys w2] rep True by simp_all
    show ?thesis using eq r c True by simp
  next
    case False
    have cl: "safe_copy_cleanup sys ?temp w1 = (ok, w')"
      using safe safe_copy_unfold [OF copy rep] False by simp
    have k: "\<not> ok" "\<forall>p. p \<noteq> ?temp \<longrightarrow> files w' p = files w1 p" "dirs w' = dirs w1"
      "\<not> remove_fails sys w1 ?temp \<longrightarrow> files w' ?temp = None"
      using safe_copy_cleanup_cases [OF cl] nodir1 by simp_all
    show ?thesis using k c by simp
  qed
qed

lemma copy_loop_accumulates:
  "copy_loop sys changed_files (copied_files, attempted) w =
     (let (copied', attempted', w') = copy_loop sys changed_files ([], []) w
      in (copied_files @ copied', attempted @ attempted', w'))"
proof (induction changed_files arbitrary: copied_files attempted w)
  case Nil
  show ?case by simp
next
  case (Cons t changed_files)
  let ?d = "destination_of t"
  obtain ok w2 where sc: "safe_copy sys (src t) ?d (makedirs sys (dirname ?d) w) = (ok, w2)"
    by (cases "safe_copy sys (src t) ?d (makedirs sys (dirname ?d) w)")
  obtain c a w3 where rest: "copy_loop sys changed_files ([], []) w2 = (c, a, w3)"
    by (cases "copy_loop sys changed_files ([], []) w2")
  have l: "copy_loop sys (t # changed_files) (copied_files, attempted) w =
      ((if ok then copied_files @ [?d] else copied_files) @ c, (attempted @ [(src t, ?d)]) @ a, w3)"
    using sc Cons.IH [of "if ok then copied_files @ [?d] else copied_files"
        "attempted @ [(src t, ?d)]" w2] rest
    by (cases ok) (simp_all add: Let_def)
  have r: "copy_loop sys (t # changed_files) ([], []) w =
      ((if ok then [?d] else []) @ c, [(src t, ?d)] @ a, w3)"
    using sc Cons.IH [of "if ok then [?d] else []" "[(src t, ?d)]" w2] rest
    by (cases ok) (simp_all add: Let_def)
  show ?case unfolding l r by simp
qed

lemma copy_changed_files_step:
  assumes sc: "safe_copy sys (src target) (destination_of target)
        (makedirs sys (dirname (destination_of target)) w) = (ok, w2)"
      and rest: "copy_changed_files sys changed_files w2 = (copied_files, attempted, w')"
  shows "copy_changed_files sys (target # changed_files) w =
     ((if ok then [destination_of target] else []) @ copied_files,
      (src target, destination_of target) # attempted, w')"
proof -
  let ?d = "destination_of target"
  have loop: "copy_loop sys changed_files ([], []) w2 = (copied_files, attempted, w')"
    using rest by (cases changed_files) (simp_all add: copy_changed_files_def)
  have "copy_loop sys (target # changed_files) ([], []) w =
      copy_loop sys changed_files (if ok then [?d] else [], [(src target, ?d)]) w2"
    using sc by (simp add: Let_def)
  also have "\<dots> = ((if ok then [?d] else []) @ copied_files, [(src target, ?d)] @ attempted, w')"
    unfolding copy_loop_accumulates [of sys changed_files "if ok then [?d] else []"
        "[(src target, ?d)]" w2] loop
    by simp
  finally show ?thesis by (simp add: copy_changed_files_def)
qed

lemma copy_loop_trace:
  "copy_loop sys changed_files (copied_files, attempted) w = (copied', attempted', w') \<Longrightarrow>
   attempted' = attempted @ map (\<lambda>t. (src t, destination_of t)) changed_files
   \<and> (\<exists>extra. copied' = copied_files @ extra
          \<and> subseq extra (map destination_of changed_files))"
proof (induction changed_files arbitrary: copied_files attempted w)
  case Nil
  then show ?case by simp
next
  case (Cons t changed_files)
  let ?d = "destination_of t"
  obtain ok w2 where sc: "safe_copy sys (src t) ?d (makedirs sys (dirname ?d) w) = (ok, w2)"
    by (cases "safe_copy sys (src t) ?d (makedirs sys (dirname ?d) w)")
  have step: "copy_loop sys changed_files
      (if ok then copied_files @ [?d] else copied_files, attempted @ [(src t, ?d)]) w2
      = (copied', attempted', w')"
    using Cons.prems sc by (simp add: Let_def)
  from Cons.IH [OF step] obtain extra where
    a: "attempted' = (attempted @ [(src t, ?d)]) @ map (\<lambda>t. (src t, destination_of t)) changed_files"
    and e: "copied' = (if ok then copied_files @ [?d] else copied_files) @ extra"
    and s: "subseq extra (map destination_of changed_files)"
    by blast
  show ?case
  proof (cases ok)
    case True
    have "copied' = copied_files @ (?d # extra)" using e True by simp
    moreover have "subseq (?d # extra) (map destination_of (t # changed_files))" using s by simp
    ultimately show ?thesis using a by auto
  next
    case False
    have "copied' = copied_files @ extra" using e False by simp
    moreover have "subseq extra (map destination_of (t # changed_files))"
      using s by (simp add: list_emb_Cons)
    ultimately show ?thesis using a by auto
  qed
qed

text \<open>
  Claim C7, as the code has it. The copy writes the source to the sibling path
  \<open>destination + ".tmp"\<close> and renames it over the destination. Whenever it reports
  failure the destination holds what it held before the call, so no partly written file
  ever stands at the destination. Where no directory stands at the temporary path: when
  the copy reports success the destination holds the whole content of the source and the
  temporary file is gone; when it reports failure the temporary file is gone unless its
  removal itself failed (that error is swallowed); no file other than the destination
  and the temporary file changes, and no directory appears or disappears. The loop over
  the changed files is this copy applied to one target after the other: on an empty
  list it does nothing; on a list with a first target it creates the destination's
  directory, calls the copy once for that target, lists its destination as copied
  exactly when the copy reported success, and goes on with the remaining targets from
  the state that call left, so that a failed target is skipped, not retried, with its
  destination as it was. The calls are made once per target, in order, and the copied
  destinations are a subsequence of the targets' destinations.
\<close>

theorem safe_copy_crash_safe:
  "(let temp_path = destination @ ''.tmp'';
        (copied_ok, w1) = shutil_copy2 sys source temp_path w;
        (ok, w') = safe_copy sys source destination w
    in (\<not> ok \<longrightarrow> files w' destination = files w destination)
       \<and> (\<not> isdir w temp_path \<longrightarrow>
            (ok \<longrightarrow> files w source \<noteq> None \<and> files w' destination = files w source
                   \<and> files w' temp_path = None)
            \<and> (\<not> ok \<and> \<not> remove_fails sys w1 temp_path \<longrightarrow> files w' temp_path = None)
            \<and> (\<forall>p. p \<noteq> destination \<and> p \<noteq> temp_path \<longrightarrow> files w' p = files w p)
            \<and> dirs w' = dirs w))
   \<and> copy_changed_files sys [] w = ([], [], w)
   \<and> (let destination_path = destination_of target;
          w1 = makedirs sys (dirname destination_path) w;
          (ok, w2) = safe_copy sys (src target) destination_path w1;
          (copied_files, attempted, w') = copy_changed_files sys changed_files w2
      in copy_changed_files sys (target # changed_files) w =
           ((if ok then [destination_path] else []) @ copied_files,
            (src target, destination_path) # attempted, w')
         \<and> (\<not> ok \<longrightarrow> files w2 destination_path = files w1 destination_path))
   \<and> (let (copied_files, attempted, w') = copy_changed_files sys changed_files w
      in attempted = map (\<lambda>t. (src t, destination_of t)) changed_files
         \<and> subseq copied_files (map destination_of changed_files))"
proof -
  obtain copied_ok w1 where copy:
    "shutil_copy2 sys source (destination @ ''.tmp'') w = (copied_ok, w1)"
    by (cases "shutil_copy2 sys source (destination @ ''.tmp'') w")
  obtain ok w' where safe: "safe_copy sys source destination w = (ok, w')"
    by (cases "safe_copy sys source destination w")
  have keep: "\<not> ok \<longrightarrow> files w' destination = files w destination"
    using safe safe_copy_keeps_destination [of sys source destination w w'] by simp
  have res: "\<not> isdir w (destination @ ''.tmp'') \<longrightarrow>
            (ok \<longrightarrow> files w source \<noteq> None \<and> files w' destination = files w source
                   \<and> files w' (destination @ ''.tmp'') = None)
            \<and> (\<not> ok \<and> \<not> remove_fails sys w1 (destination @ ''.tmp'') \<longrightarrow>
                  files w' (destination @ ''.tmp'') = None)
            \<and> (\<forall>p. p \<noteq> destination \<and> p \<noteq> destination @ ''.tmp'' \<longrightarrow> files w' p = files w p)
            \<and> dirs w' = dirs w"
    using safe_copy_result [OF copy safe] by blast
  have one: "(let temp_path = destination @ ''.tmp'';
        (copied_ok, w1) = shutil_copy2 sys source temp_path w;
        (ok, w') = safe_copy sys source destination w
    in (\<not> ok \<longrightarrow> files w' destination = files w destination)
       \<and> (\<not> isdir w temp_path \<longrightarrow>
            (ok \<longrightarrow> files w source \<noteq> None \<and> files w' destination = files w source
                   \<and> files w' temp_path = None)
            \<and> (\<not> ok \<and> \<not> remove_fails sys w1 temp_path \<longrightarrow> files w' temp_path = None)
            \<and> (\<forall>p. p \<noteq> destination \<and> p \<noteq> temp_path \<longrightarrow> files w' p = files w p)
            \<and> dirs w' = dirs w))"
    unfolding Let_def copy safe prod.case using keep res by (rule conjI)
  have nil: "copy_changed_files sys [] w = ([], [], w)"
    by (simp add: copy_changed_files_def)
  let ?d = "destination_of target"
  obtain ok2 w2 where sc: "safe_copy sys (src target) ?d (makedirs sys (dirname ?d) w) = (ok2, w2)"
    by (cases "safe_copy sys (src target) ?d (makedirs sys (dirname ?d) w)")
  obtain c a w3 where rest: "copy_changed_files sys changed_files w2 = (c, a, w3)"
    by (cases "copy_changed_files sys changed_files w2")
  have keep2: "\<not> ok2 \<longrightarrow> files w2 ?d = files (makedirs sys (dirname ?d) w) ?d"
    using sc safe_copy_keeps_destination [of sys "src target" ?d "makedirs sys (dirname ?d) w" w2]
    by simp
  have step: "(let destination_path = destination_of target;
          w1 = makedirs sys (dirname destination_path) w;
          (ok, w2) = safe_copy sys (src target) destination_path w1;
          (copied_files, attempted, w') = copy_changed_files sys changed_files w2
      in copy_changed_files sys (target # changed_files) w =
           ((if ok then [destination_path] else []) @ copied_files,
            (src target, destination_path) # attempted, w')
         \<and> (\<not> ok \<longrightarrow> files w2 destination_path = files w1 destination_path))"
    unfolding Let_def sc rest prod.case
    using copy_changed_files_step [OF sc rest] keep2 by (rule conjI)
  obtain copied_files attempted w'' where all:
    "copy_changed_files sys changed_files w = (copied_files, attempted, w'')"
    by (cases "copy_changed_files sys changed_files w")
  have loop: "attempted = map (\<lambda>t. (src t, destination_of t)) changed_files
         \<and> subseq copied_files (map destination_of changed_files)"
  proof (cases "changed_files = []")
    case True
    then show ?thesis using all by (simp add: copy_changed_files_def)
  next
    case False
    then have "copy_loop sys changed_files ([], []) w = (copied_files, attempted, w'')"
      using all by (simp add: copy_changed_files_def)
    from copy_loop_trace [OF this] show ?thesis by auto
  qed
  have two: "(let (copied_files, attempted, w') = copy_changed_files sys changed_files w
      in attempted = map (\<lambda>t. (src t, destination_of t)) changed_files
         \<and> subseq copied_files (map destination_of changed_files))"
    unfolding all using loop by simp
  from one nil step two show ?thesis by blast
qed

lemma copy_examples:
  "safe_copy quiet_sys ''/etc/a.rules'' ''collected_rules/suricata/a.rules'' copy_world =
     (True, copy_world\<lparr>files := (files copy_world)
        (''collected_rules/suricata/a.rules.tmp'' \<mapsto> ''alert a'',
         ''collected_rules/suricata/a.rules'' \<mapsto> ''alert a'',
         ''collected_rules/suricata/a.rules.tmp'' := None)\<rparr>)"
  "safe_copy partial_copy_sys ''/etc/a.rules'' ''collected_rules/suricata/a.rules'' copy_world =
     (False, copy_world\<lparr>files := (files copy_world)
        (''collected_rules/suricata/a.rules.tmp'' \<mapsto> ''ale'',
         ''collected_rules/suricata/a.rules.tmp'' := None)\<rparr>)"
  "safe_copy stuck_temp_sys ''/etc/a.rules'' ''collected_rules/suricata/a.rules'' copy_world =
     (False, copy_world\<lparr>files := (files copy_world)
        (''collected_rules/suricata/a.rules.tmp'' \<mapsto> ''ale'')\<rparr>)"
  by (simp_all add: safe_copy_def shutil_copy2_def os_replace_def safe_copy_cleanup_def
      os_remove_def exists_def isfile_def isdir_def copy_world_def empty_world_def quiet_sys_def
      partial_copy_sys_def stuck_temp_sys_def)

lemma copy_target_example:
  "src (target_of ''/etc/a.rules'') = ''/etc/a.rules''"
  "destination_of (target_of ''/etc/a.rules'') = ''collected_rules/suricata/a.rules''"
  by (simp_all add: target_of_def destination_of_def path_join_def startswith_def endswith_def
      OUTPUT_DIR_def os_sep_def basename_def)

theorem safe_copy_crash_safe_witness:
  "fst (safe_copy quiet_sys ''/etc/a.rules'' ''collected_rules/suricata/a.rules'' copy_world)
   \<and> files (snd (safe_copy quiet_sys ''/etc/a.rules'' ''collected_rules/suricata/a.rules''
        copy_world)) ''collected_rules/suricata/a.rules'' = Some ''alert a''
   \<and> files (snd (safe_copy quiet_sys ''/etc/a.rules'' ''collected_rules/suricata/a.rules''
        copy_world)) ''collected_rules/suricata/a.rules.tmp'' = None
   \<and> \<not> fst (safe_copy partial_copy_sys ''/etc/a.rules'' ''collected_rules/suricata/a.rules''
        copy_world)
   \<and> files (snd (safe_copy partial_copy_sys ''/etc/a.rules''
        ''collected_rules/suricata/a.rules'' copy_world)) ''collected_rules/suricata/a.rules''
       = Some ''old''
   \<and> files (snd (safe_copy partial_copy_sys ''/etc/a.rules''
        ''collected_rules/suricata/a.rules'' copy_world)) ''collected_rules/suricata/a.rules.tmp''
       = None
   \<and> fst (copy_changed_files partial_copy_sys [target_of ''/etc/a.rules''] copy_world) = []
   \<and> fst (snd (copy_changed_files partial_copy_sys [target_of ''/etc/a.rules''] copy_world)) =
       [(''/etc/a.rules'', ''collected_rules/suricata/a.rules'')]
   \<and> files (snd (snd (copy_changed_files partial_copy_sys [target_of ''/etc/a.rules'']
        copy_world))) ''collected_rules/suricata/a.rules'' = Some ''old''
   \<and> fst (copy_changed_files quiet_sys [target_of ''/etc/a.rules''] copy_world) =
       [''collected_rules/suricata/a.rules'']
   \<and> files (snd (snd (copy_changed_files quiet_sys [target_of ''/etc/a.rules'']
        copy_world))) ''collected_rules/suricata/a.rules'' = Some ''alert a''"
proof -
  have src_file: "files copy_world ''/etc/a.rules'' = Some ''alert a''"
    and old_file: "files copy_world ''collected_rules/suricata/a.rules'' = Some ''old''"
    and nodir: "\<not> isdir copy_world p" for p
    by (simp_all add: copy_world_def empty_world_def isdir_def)
  have rm: "\<not> remove_fails partial_copy_sys w p" for w p
    by (simp add: partial_copy_sys_def quiet_sys_def)
  have mk: "makedirs quiet_sys p w = w" "makedirs partial_copy_sys p w = w" for p w
    by (simp_all add: partial_copy_sys_def quiet_sys_def)
  have ok1: "fst (safe_copy quiet_sys ''/etc/a.rules'' ''collected_rules/suricata/a.rules''
      copy_world)"
    and ok2: "\<not> fst (safe_copy partial_copy_sys ''/etc/a.rules''
      ''collected_rules/suricata/a.rules'' copy_world)"
    by (simp_all add: copy_examples)
  note good_run = safe_copy_crash_safe [where sys = quiet_sys and source = "''/etc/a.rules''"
      and destination = "''collected_rules/suricata/a.rules''" and w = copy_world
      and target = "target_of ''/etc/a.rules''" and changed_files = "[]"]
  note bad_run = safe_copy_crash_safe [where sys = partial_copy_sys
      and source = "''/etc/a.rules''"
      and destination = "''collected_rules/suricata/a.rules''" and w = copy_world
      and target = "target_of ''/etc/a.rules''" and changed_files = "[]"]
  have good: "files (snd (safe_copy quiet_sys ''/etc/a.rules''
        ''collected_rules/suricata/a.rules'' copy_world)) ''collected_rules/suricata/a.rules''
       = Some ''alert a''
     \<and> files (snd (safe_copy quiet_sys ''/etc/a.rules'' ''collected_rules/suricata/a.rules''
        copy_world)) ''collected_rules/suricata/a.rules.tmp'' = None"
    using good_run [THEN conjunct1] ok1 src_file nodir
    by (simp add: Let_def split_beta)
  have bad: "files (snd (safe_copy partial_copy_sys ''/etc/a.rules''
        ''collected_rules/suricata/a.rules'' copy_world)) ''collected_rules/suricata/a.rules''
       = Some ''old''
     \<and> files (snd (safe_copy partial_copy_sys ''/etc/a.rules''
        ''collected_rules/suricata/a.rules'' copy_world)) ''collected_rules/suricata/a.rules.tmp''
       = None"
    using bad_run [THEN conjunct1] ok2 old_file rm nodir
    by (simp add: Let_def split_beta)
  have nil: "copy_changed_files sys [] w = ([], [], w)" for sys w
    by (simp add: copy_changed_files_def)
  have bad_loop: "copy_changed_files partial_copy_sys [target_of ''/etc/a.rules''] copy_world =
      ([], [(''/etc/a.rules'', ''collected_rules/suricata/a.rules'')],
       snd (safe_copy partial_copy_sys ''/etc/a.rules'' ''collected_rules/suricata/a.rules''
         copy_world))"
    using bad_run [THEN conjunct2, THEN conjunct2, THEN conjunct1] ok2
    by (simp add: Let_def split_beta copy_target_example mk nil)
  have good_loop: "copy_changed_files quiet_sys [target_of ''/etc/a.rules''] copy_world =
      ([''collected_rules/suricata/a.rules''],
       [(''/etc/a.rules'', ''collected_rules/suricata/a.rules'')],
       snd (safe_copy quiet_sys ''/etc/a.rules'' ''collected_rules/suricata/a.rules''
         copy_world))"
    using good_run [THEN conjunct2, THEN conjunct2, THEN conjunct1] ok1
    by (simp add: Let_def split_beta copy_target_example mk nil)
  show ?thesis
    unfolding bad_loop good_loop fst_conv snd_conv
    using ok1 ok2 good bad by blast
qed

text \<open>
  Why the success of the copy is stated for a temporary path at which no directory
  stands: with a directory there, \<open>shutil.copy2\<close> copies into it and \<open>os.replace\<close> moves
  the directory, so the copy reports success and the destination is a directory with
  the copied file inside.
\<close>

lemma safe_copy_temp_directory_example:
  "fst (safe_copy temp_dir_sys ''/etc/a.rules'' ''collected_rules/suricata/a.rules''
        temp_dir_world)
   \<and> isdir (snd (safe_copy temp_dir_sys ''/etc/a.rules'' ''collected_rules/suricata/a.rules''
        temp_dir_world)) ''collected_rules/suricata/a.rules''
   \<and> files (snd (safe_copy temp_dir_sys ''/etc/a.rules'' ''collected_rules/suricata/a.rules''
        temp_dir_world)) ''collected_rules/suricata/a.rules'' = None
   \<and> files (snd (safe_copy temp_dir_sys ''/etc/a.rules'' ''collected_rules/suricata/a.rules''
        temp_dir_world)) ''collected_rules/suricata/a.rules/a.rules'' = Some ''alert a''"
  by (simp add: safe_copy_def shutil_copy2_def os_replace_def isdir_def temp_dir_world_def
      temp_dir_sys_def empty_world_def quiet_sys_def path_join_def basename_def startswith_def
      endswith_def os_sep_def Let_def)

text \<open>
  Claim C7 as stated fails where the copy breaks off after three bytes and the removal
  of the temporary file raises: \<open>safe_copy\<close> reports failure and the partly written
  temporary file still exists.
\<close>

theorem temp_file_left_counterexample:
  "\<not> fst (safe_copy stuck_temp_sys ''/etc/a.rules'' ''collected_rules/suricata/a.rules''
        copy_world)
   \<and> files (snd (safe_copy stuck_temp_sys ''/etc/a.rules'' ''collected_rules/suricata/a.rules''
        copy_world)) ''collected_rules/suricata/a.rules.tmp'' = Some ''ale''
   \<and> exists (snd (safe_copy stuck_temp_sys ''/etc/a.rules'' ''collected_rules/suricata/a.rules''
        copy_world)) ''collected_rules/suricata/a.rules.tmp''"
  by (simp add: copy_examples exists_def isfile_def)

section \<open>Properties of persisting the hash record\<close>

lemma hash_loop_record:
  "fst (hash_loop sys w old targets (new, changed_files, n)) =
     (\<lambda>p. case (if p \<in> src ` set targets then calculate_file_hash sys w p else None) of
             None \<Rightarrow> new p
           | Some h \<Rightarrow> if h = [] then new p else Some h)"
proof (induction targets arbitrary: new changed_files n)
  case Nil
  show ?case by simp
next
  case (Cons t targets)
  show ?case
  proof (cases "calculate_file_hash sys w (src t)")
    case None
    have step: "hash_loop sys w old (t # targets) (new, changed_files, n) =
        hash_loop sys w old targets (new, changed_files, n)"
      using None by simp
    show ?thesis unfolding step Cons.IH using None by (auto simp: fun_eq_iff)
  next
    case (Some h)
    show ?thesis
    proof (cases "h = []")
      case True
      have step: "hash_loop sys w old (t # targets) (new, changed_files, n) =
          hash_loop sys w old targets (new, changed_files, n)"
        using Some True by simp
      show ?thesis unfolding step Cons.IH using Some True by (auto simp: fun_eq_iff)
    next
      case False
      obtain c' n' where step: "hash_loop sys w old (t # targets) (new, changed_files, n) =
          hash_loop sys w old targets (new(src t \<mapsto> h), c', n')"
        using Some False by (cases "old (src t) = Some h") simp_all
      show ?thesis
        unfolding step Cons.IH using Some False by (auto simp: fun_eq_iff split: option.splits)
    qed
  qed
qed

lemma new_record_from_scratch:
  "fst (calculate_file_hashes sys w targets old) = fst (calculate_file_hashes sys w targets old')"
  "dom (fst (calculate_file_hashes sys w targets old)) \<subseteq> src ` set targets"
  unfolding calculate_file_hashes_def hash_loop_record
  by (auto split: option.splits if_splits)

lemma keeps_hash_recordD:
  assumes "keeps_hash_record sys"
  shows "hash_record_file (makedirs sys p w) = hash_record_file w"
    and "hash_record_file (rmtree sys p w) = hash_record_file w"
    and "hash_record_file (snd (docker_cp sys source dst w)) = hash_record_file w"
    and "hash_record_file (snd (docker_tar_stream sys ident source dst w)) = hash_record_file w"
  using assms unfolding keeps_hash_record_def by blast+

lemma save_path_cache_keeps:
  "keeps_hash_record sys \<Longrightarrow>
   hash_record_file (save_path_cache sys path_cache w) = hash_record_file w"
  by (simp add: save_path_cache_def Let_def keeps_hash_recordD(1) split: write_fault.splits)

lemma copy_directory_from_container_keeps:
  assumes k: "keeps_hash_record sys"
  shows "hash_record_file (snd (copy_directory_from_container sys container_ref source_path
           destination_path w)) = hash_record_file w"
proof -
  let ?w1 = "makedirs sys destination_path w"
  let ?r = "docker_cp sys (container_ref @ '':'' @ source_path @ ''/.'') destination_path ?w1"
  have "snd (copy_directory_from_container sys container_ref source_path destination_path w)
      = snd ?r"
    by (simp add: copy_directory_from_container_def Let_def split_beta)
  then show ?thesis
    using keeps_hash_recordD(3) [OF k] keeps_hash_recordD(1) [OF k] by simp
qed

lemma extract_directory_using_tar_keeps:
  assumes k: "keeps_hash_record sys"
  shows "hash_record_file (snd (extract_directory_using_tar sys container_ref source_path
           destination_path w)) = hash_record_file w"
proof -
  let ?w1 = "makedirs sys destination_path w"
  let ?r = "docker_tar_stream sys container_ref source_path destination_path ?w1"
  have "snd (extract_directory_using_tar sys container_ref source_path destination_path w)
      = snd ?r"
    by (simp add: extract_directory_using_tar_def Let_def split_beta split: tar_outcome.splits)
  then show ?thesis
    using keeps_hash_recordD(4) [OF k] keeps_hash_recordD(1) [OF k] by simp
qed

lemma try_methods_keeps:
  "(\<And>method_name method_function w.
      (method_name, method_function) \<in> set methods \<Longrightarrow>
      hash_record_file (snd (method_function w)) = hash_record_file w) \<Longrightarrow>
   hash_record_file (snd (snd (try_methods methods attempted w))) = hash_record_file w"
proof (induction methods arbitrary: attempted w)
  case Nil
  show ?case by simp
next
  case (Cons m methods)
  obtain method_name method_function where m: "m = (method_name, method_function)"
    by (cases m)
  obtain ok w1 where r: "method_function w = (ok, w1)" by (cases "method_function w")
  have one: "hash_record_file w1 = hash_record_file w"
    using Cons.prems [of method_name method_function w] m r by simp
  have rest: "hash_record_file (snd (snd (try_methods methods (attempted @ [method_name]) w1)))
      = hash_record_file w1"
  proof (rule Cons.IH)
    fix n f v
    assume "(n, f) \<in> set methods"
    then have "(n, f) \<in> set (m # methods)" by simp
    then show "hash_record_file (snd (f v)) = hash_record_file v" by (rule Cons.prems)
  qed
  show ?case
    using one rest by (cases ok) (simp_all add: m r)
qed

lemma collect_from_docker_container_keeps:
  assumes k: "keeps_hash_record sys"
  shows "hash_record_file (snd (snd (collect_from_docker_container sys container_identifier
           source_path device_name file_extension w))) = hash_record_file w"
proof (cases "get_container_info sys w container_identifier")
  case None
  then show ?thesis by (simp add: collect_from_docker_container_def)
next
  case (Some info)
  let ?t = "temp_destination_of device_name info"
  let ?w1 = "if exists w ?t then rmtree sys ?t w else w"
  let ?w2 = "makedirs sys ?t ?w1"
  let ?ms = "extraction_methods sys (resolved_id info) source_path ?t"
  have w2: "hash_record_file ?w2 = hash_record_file w"
    using keeps_hash_recordD(1) [OF k] keeps_hash_recordD(2) [OF k] by simp
  have ms: "hash_record_file (snd (method_function v)) = hash_record_file v"
    if "(method_name, method_function) \<in> set ?ms" for method_name method_function v
    using that copy_directory_from_container_keeps [OF k]
      extract_directory_using_tar_keeps [OF k]
    by (auto simp: extraction_methods_def)
  have tm: "hash_record_file (snd (snd (try_methods ?ms [] ?w2))) = hash_record_file w"
    using try_methods_keeps [of ?ms "[]" ?w2] ms w2 by simp
  obtain success attempted w3 where r: "try_methods ?ms [] ?w2 = (success, attempted, w3)"
    by (cases "try_methods ?ms [] ?w2")
  have w3: "hash_record_file w3 = hash_record_file w" using tm r by simp
  show ?thesis
    using Some w3 r by (simp add: collect_from_docker_container_def Let_def)
qed

lemma scan_devices_keeps:
  "keeps_hash_record sys \<Longrightarrow>
   hash_record_file (snd (snd (scan_devices sys use_cache verified_cache devices
      (all_targets, new_path_cache, w)))) = hash_record_file w"
proof (induction devices arbitrary: all_targets new_path_cache w)
  case Nil
  show ?case by simp
next
  case (Cons d devices)
  obtain device_name device_config where d: "d = (device_name, device_config)" by (cases d)
  show ?case
  proof (cases "type device_config = Docker")
    case True
    obtain docker_files attempted w1 where r:
      "collect_from_docker_container sys (container device_config)
         (container_path device_config) device_name (file_type device_config) w
       = (docker_files, attempted, w1)"
      by (cases "collect_from_docker_container sys (container device_config)
         (container_path device_config) device_name (file_type device_config) w")
    have w1: "hash_record_file w1 = hash_record_file w"
      using collect_from_docker_container_keeps [OF Cons.prems, of "container device_config"
          "container_path device_config" device_name "file_type device_config" w] r
      by simp
    show ?thesis
      using True r w1 Cons.IH [OF Cons.prems] by (simp add: d Let_def)
  next
    case False
    obtain device_targets cache1 where r:
      "process_local_device sys w device_name device_config use_cache verified_cache
         (AList.update device_name [] new_path_cache) = (device_targets, cache1)"
      by (cases "process_local_device sys w device_name device_config use_cache verified_cache
         (AList.update device_name [] new_path_cache)")
    show ?thesis
      using False r Cons.IH [OF Cons.prems] by (simp add: d Let_def)
  qed
qed

lemma scan_rule_files_keeps:
  assumes k: "keeps_hash_record sys"
  shows "hash_record_file (snd (scan_rule_files sys devices use_cache verified_cache w))
     = hash_record_file w"
proof -
  obtain all_targets new_path_cache w1 where r:
    "scan_devices sys use_cache verified_cache devices ([], [], w)
     = (all_targets, new_path_cache, w1)"
    by (cases "scan_devices sys use_cache verified_cache devices ([], [], w)")
  have w1: "hash_record_file w1 = hash_record_file w"
    using scan_devices_keeps [OF k, of use_cache verified_cache devices "[]" "[]" w] r by simp
  show ?thesis
    unfolding scan_rule_files_def r
    by (simp add: Let_def save_path_cache_keeps [OF k] w1)
qed

text \<open>
  Claim C8, as the code has it. A run that finds no target returns the empty result
  right after the scan and never calls \<open>save_hash_record\<close>: the state it leaves is the one
  the scan left, and, the directory and container calls of the scan leaving the record
  file alone, the persisted hash record is the one the run started with. A run that
  finds a target hands the record computed in this run to \<open>save_hash_record\<close>, and when
  the write succeeds the persisted record is exactly that record. The record computed
  in a run does not depend on the previous record (it is the record computed from an
  empty previous record) and holds no source path outside this run's targets.
\<close>

theorem collect_rules_hash_record:
  "(let w1 = makedirs sys DOCKER_TEMP_DIR (makedirs sys OUTPUT_DIR w);
        (use_cache, verified_cache) =
          decide_scan_strategy w1 force_rescan (load_path_cache w1);
        (all_targets, w2) = scan_rule_files sys devices use_cache verified_cache w1;
        (new_hash_record, changed_files, unchanged_count) =
          calculate_file_hashes sys w2 all_targets (load_hash_record w1);
        (copied_files, attempted, w3) = copy_changed_files sys changed_files w2;
        w4 = makedirs sys (dirname HASH_RECORD_FILE) w3;
        (result, w') = collect_rules sys devices force_rescan w
    in (all_targets = [] \<longrightarrow> result = empty_result \<and> w' = w2)
       \<and> (all_targets = [] \<and> keeps_hash_record sys \<longrightarrow>
            hash_record_file w' = hash_record_file w
            \<and> load_hash_record w' = load_hash_record w)
       \<and> (all_targets \<noteq> [] \<and> json_write_fault sys w4 HASH_RECORD_FILE = WriteOk \<longrightarrow>
            hash_record_file w' = Stored new_hash_record)
       \<and> new_hash_record = fst (calculate_file_hashes sys w2 all_targets Map.empty)
       \<and> (\<forall>p. p \<notin> src ` set all_targets \<longrightarrow> new_hash_record p = None))"
proof -
  define w1 where "w1 = makedirs sys DOCKER_TEMP_DIR (makedirs sys OUTPUT_DIR w)"
  obtain use_cache verified_cache where dec:
    "decide_scan_strategy w1 force_rescan (load_path_cache w1) = (use_cache, verified_cache)"
    by (cases "decide_scan_strategy w1 force_rescan (load_path_cache w1)")
  obtain all_targets w2 where scan:
    "scan_rule_files sys devices use_cache verified_cache w1 = (all_targets, w2)"
    by (cases "scan_rule_files sys devices use_cache verified_cache w1")
  obtain new_hash_record changed_files unchanged_count where hashes:
    "calculate_file_hashes sys w2 all_targets (load_hash_record w1) =
       (new_hash_record, changed_files, unchanged_count)"
    by (cases "calculate_file_hashes sys w2 all_targets (load_hash_record w1)")
  obtain copied_files attempted w3 where copy:
    "copy_changed_files sys changed_files w2 = (copied_files, attempted, w3)"
    by (cases "copy_changed_files sys changed_files w2")
  define w4 where "w4 = makedirs sys (dirname HASH_RECORD_FILE) w3"
  have run: "collect_rules sys devices force_rescan w =
      (if all_targets = [] then (empty_result, w2)
       else (generate_final_result all_targets unchanged_count (length changed_files)
               copied_files,
             save_hash_record sys new_hash_record w3))"
    unfolding collect_rules_def
    by (simp add: Let_def w1_def [symmetric] dec scan hashes copy)
  have kept: "hash_record_file w2 = hash_record_file w \<and> load_hash_record w2 = load_hash_record w"
    if k: "keeps_hash_record sys"
  proof -
    have "hash_record_file w2 = hash_record_file w1"
      using scan_rule_files_keeps [OF k, of devices use_cache verified_cache w1] scan by simp
    also have "\<dots> = hash_record_file w"
      unfolding w1_def by (simp add: keeps_hash_recordD(1) [OF k])
    finally show ?thesis by (simp add: load_hash_record_def)
  qed
  have saved: "json_write_fault sys w4 HASH_RECORD_FILE = WriteOk \<Longrightarrow>
      hash_record_file (save_hash_record sys new_hash_record w3) = Stored new_hash_record"
    by (simp add: save_hash_record_def Let_def w4_def [symmetric])
  have fresh: "new_hash_record = fst (calculate_file_hashes sys w2 all_targets Map.empty)"
    using new_record_from_scratch(1) [of sys w2 all_targets "load_hash_record w1" Map.empty]
    by (simp add: hashes)
  have dropped: "\<forall>p. p \<notin> src ` set all_targets \<longrightarrow> new_hash_record p = None"
    using new_record_from_scratch(2) [of sys w2 all_targets "load_hash_record w1"]
    by (auto simp: hashes)
  show ?thesis
    unfolding Let_def w1_def [symmetric] dec scan hashes copy w4_def [symmetric] run prod.case
    using saved fresh dropped kept by simp
qed

lemma quiet_search: "fst (search_device_paths quiet_sys w device_config) = []"
  by (simp add: search_device_paths_def Let_def quiet_probe SCAN_ORDER_PRIORITY_def)

lemma quiet_scan:
  "scan_rule_files quiet_sys [(''suricata'', suricata_config)] False [] w =
     ([], w\<lparr>path_cache_file := Stored [(''suricata'', [])]\<rparr>)"
proof -
  have local: "process_local_device quiet_sys w ''suricata'' suricata_config False []
      [(''suricata'', [])] = ([], [(''suricata'', [])])"
    by (simp add: process_local_device_def Let_def quiet_search process_found_items_def)
  have t: "type suricata_config = Local" by (simp add: suricata_config_def)
  have devs: "scan_devices quiet_sys False [] [(''suricata'', suricata_config)] ([], [], w) =
      ([], [(''suricata'', [])], w)"
    by (simp add: t local Let_def)
  have mk: "makedirs quiet_sys p w = w" "json_write_fault quiet_sys w p = WriteOk" for p
    by (simp_all add: quiet_sys_def)
  show ?thesis
    unfolding scan_rule_files_def devs
    by (simp add: save_path_cache_def mk deduplicate_targets_def Let_def)
qed

text \<open>
  Claim C8 as stated fails on a run that finds nothing: the persisted record still
  holds a path that is not among this run's targets.
\<close>

theorem stale_record_counterexample:
  "fst (collect_rules quiet_sys [(''suricata'', suricata_config)] False stale_world)
     = empty_result
   \<and> load_hash_record
       (snd (collect_rules quiet_sys [(''suricata'', suricata_config)] False stale_world))
       ''/etc/old/gone.rules'' = Some ''md5:gone''"
proof -
  have mk: "makedirs quiet_sys p w = w" for p w
    by (simp add: quiet_sys_def)
  have dec: "decide_scan_strategy stale_world False (load_path_cache stale_world) = (False, [])"
    by (simp add: decide_scan_strategy_def load_path_cache_def stale_world_def empty_world_def)
  have run: "collect_rules quiet_sys [(''suricata'', suricata_config)] False stale_world =
      (empty_result, stale_world\<lparr>path_cache_file := Stored [(''suricata'', [])]\<rparr>)"
    unfolding collect_rules_def
    by (simp add: mk Let_def dec quiet_scan)
  show ?thesis
    unfolding run
    by (simp add: load_hash_record_def stale_world_def empty_world_def old_record_def)
qed

lemma run_probe:
  "search_rule_files run_sys run_world [''**/suricata/rules/''] COMMON_PATHS
     = [''/opt/suricata/rules'']"
  by (simp add: run_sys_def run_world_def two_tier_sys_def quiet_sys_def
      COMMON_PATHS_def search_rule_files_def search_files_def path_join_def lstrip_sep_def
      startswith_def endswith_def os_sep_def exists_def isfile_def isdir_def)

lemma run_search:
  "fst (search_device_paths run_sys run_world suricata_config) = [''/opt/suricata/rules'']"
  by (simp add: search_device_paths_def Let_def SCAN_ORDER_PRIORITY_def suricata_config_def
      run_probe)

lemma run_items:
  "process_found_items run_sys run_world [''/opt/suricata/rules''] ''suricata'' ''rules''
     = ([rule_target], [])"
proof -
  have f: "\<not> isfile run_world ''/opt/suricata/rules''" and d: "isdir run_world ''/opt/suricata/rules''"
    by (simp_all add: isfile_def isdir_def run_world_def)
  have e: "enumerate_directory_files run_sys run_world ''/opt/suricata/rules'' ''rules''
      = [(''/opt/suricata/rules/a.rules'', ''a.rules'')]"
    using f
    by (simp add: enumerate_directory_files_def walk_entries_def extension_matches_def
        Let_def run_sys_def two_tier_sys_def quiet_sys_def lower_def is_ascii_def ascii_lower_def
        ascii_lower_char_def
        endswith_def path_join_def startswith_def os_sep_def)
  show ?thesis
    using f d by (simp add: process_found_items_def e rule_target_def)
qed

lemma run_scan:
  "scan_rule_files run_sys [(''suricata'', suricata_config)] False [] run_world =
     ([rule_target],
      run_world\<lparr>path_cache_file := Stored [(''suricata'',
        [\<lparr>info_path = ''/opt/suricata/rules/a.rules'', info_dest_rel = ''a.rules''\<rparr>])]\<rparr>)"
proof -
  have ft: "file_type suricata_config = ''rules''" and t: "type suricata_config = Local"
    by (simp_all add: suricata_config_def)
  have local: "process_local_device run_sys run_world ''suricata'' suricata_config False []
      [(''suricata'', [])] =
      ([rule_target], [(''suricata'',
        [\<lparr>info_path = ''/opt/suricata/rules/a.rules'', info_dest_rel = ''a.rules''\<rparr>])])"
    by (simp add: process_local_device_def Let_def run_search ft run_items cache_append_def)
       (simp add: rule_target_def)
  have devs: "scan_devices run_sys False [] [(''suricata'', suricata_config)] ([], [], run_world)
      = ([rule_target], [(''suricata'',
        [\<lparr>info_path = ''/opt/suricata/rules/a.rules'', info_dest_rel = ''a.rules''\<rparr>])],
         run_world)"
    by (simp add: t local Let_def)
  have mk: "makedirs run_sys p w = w" "json_write_fault run_sys w p = WriteOk" for p w
    by (simp_all add: run_sys_def two_tier_sys_def quiet_sys_def)
  show ?thesis
    unfolding scan_rule_files_def devs
    by (simp add: save_path_cache_def mk deduplicate_targets_def Let_def)
qed

lemma quiet_keeps: "keeps_hash_record quiet_sys"
  by (simp add: keeps_hash_record_def quiet_sys_def)

theorem collect_rules_hash_record_witness:
  "load_hash_record (snd (collect_rules run_sys [(''suricata'', suricata_config)] False run_world))
     ''/opt/suricata/rules/a.rules'' = Some ''md5:alert a''
   \<and> load_hash_record (snd (collect_rules run_sys [(''suricata'', suricata_config)] False
        run_world)) ''/etc/old/gone.rules'' = None
   \<and> load_hash_record run_world ''/etc/old/gone.rules'' = Some ''md5:gone''
   \<and> fst (collect_rules quiet_sys [(''suricata'', suricata_config)] False stale_world)
       = empty_result
   \<and> hash_record_file (snd (collect_rules quiet_sys [(''suricata'', suricata_config)] False
        stale_world)) = Stored old_record"
proof -
  have mk: "makedirs run_sys p w = w" "json_write_fault run_sys w p = WriteOk" for p w
    by (simp_all add: run_sys_def two_tier_sys_def quiet_sys_def)
  have dec: "decide_scan_strategy run_world False (load_path_cache run_world) = (False, [])"
    by (simp add: decide_scan_strategy_def load_path_cache_def run_world_def)
  have h: "calculate_file_hash run_sys w ''/opt/suricata/rules/a.rules'' =
      (case files w ''/opt/suricata/rules/a.rules'' of None \<Rightarrow> None
       | Some c \<Rightarrow> Some (''md5:'' @ c))" for w
    by (simp add: calculate_file_hash_def run_sys_def two_tier_sys_def quiet_sys_def
        split: option.splits)
  have old: "load_hash_record run_world ''/etc/old/gone.rules'' = Some ''md5:gone''"
    by (simp add: load_hash_record_def run_world_def old_record_def)
  have new: "load_hash_record (snd (collect_rules run_sys [(''suricata'', suricata_config)]
        False run_world)) ''/opt/suricata/rules/a.rules'' = Some ''md5:alert a''
     \<and> load_hash_record (snd (collect_rules run_sys [(''suricata'', suricata_config)] False
        run_world)) ''/etc/old/gone.rules'' = None"
    using collect_rules_hash_record [of run_sys run_world False
        "[(''suricata'', suricata_config)]"]
    by (simp add: Let_def mk dec run_scan split_beta load_hash_record_def
        calculate_file_hashes_def rule_target_def h)
       (simp add: run_world_def)
  have qmk: "makedirs quiet_sys p w = w" for p w
    by (simp add: quiet_sys_def)
  have qdec: "decide_scan_strategy stale_world False (load_path_cache stale_world) = (False, [])"
    by (simp add: decide_scan_strategy_def load_path_cache_def stale_world_def empty_world_def)
  have stored: "hash_record_file stale_world = Stored old_record"
    by (simp add: stale_world_def)
  have none: "fst (collect_rules quiet_sys [(''suricata'', suricata_config)] False stale_world)
       = empty_result
     \<and> hash_record_file (snd (collect_rules quiet_sys [(''suricata'', suricata_config)] False
        stale_world)) = Stored old_record"
    using collect_rules_hash_record [of quiet_sys stale_world False
        "[(''suricata'', suricata_config)]"] quiet_keeps
    by (simp add: Let_def qmk qdec quiet_scan split_beta stored)
  from new old none show ?thesis by blast
qed


end
